theory Spec2Isabelle
  imports Complex_Main "HOL-Library.Word"
begin

section \<open>VLOven: a profile-driven oven controller\<close>

text \<open>
  A shallow embedding of the oven controller class (\<^verbatim>\<open>VLOvenController.cpp\<close>), of the
  profile store and of the profile commands of the main sketch.

  The target is an 8-bit AVR: \<^verbatim>\<open>int\<close> is 16 bits wide, \<^verbatim>\<open>unsigned long\<close> 32 bits and
  \<^verbatim>\<open>double\<close> 4 bytes. In the control algorithms a \<^verbatim>\<open>double\<close> is a \<^typ>\<open>real\<close>: comparisons
  are the ones the code makes, arithmetic is exact (rounding is not modelled, and neither are
  NaN or infinities). In the store a \<^verbatim>\<open>double\<close> is the 32-bit pattern that is copied
  byte by byte and never looked at. Everything the controller reads from outside (the clock
  \<^verbatim>\<open>millis()\<close>, the thermocouple \<^verbatim>\<open>readTC()\<close>, the PID library) is an argument of the
  function that reads it; everything it sends outside (heater duty, console events and
  responses) is appended to a list of effects.
\<close>

subsection \<open>Types and constants of \<^verbatim>\<open>VLOvenController.h\<close>\<close>

type_synonym byte = "8 word"
type_synonym ulong = "32 word"

definition PID_OUTPUT_LIMIT_MAX :: real where "PID_OUTPUT_LIMIT_MAX = 100"
definition PID_OUTPUT_LIMIT_MIN :: real where "PID_OUTPUT_LIMIT_MIN = 0"
definition PROFILE_SAMPLING_TIME :: nat where "PROFILE_SAMPLING_TIME = 50"
definition TEMPLOGSAMPLING_TIME :: nat where "TEMPLOGSAMPLING_TIME = 500"
definition MAX_PHASENAME_LEN :: nat where "MAX_PHASENAME_LEN = 10 + 1"
definition MAXIMUM_TEMPERATURE_SLOPE :: real where "MAXIMUM_TEMPERATURE_SLOPE = 100"

text \<open>
  \<^verbatim>\<open>VLOvenControllerPhase_t\<close>. The type parameter is the representation of \<^verbatim>\<open>double\<close>:
  \<^typ>\<open>real\<close> in the controller, \<^typ>\<open>32 word\<close> in the store.
\<close>

record 'd VLOvenControllerPhase_t =
  Name :: "byte list"
  EndTemp :: 'd
  Slope :: 'd
  Duration :: "16 word"

type_synonym phase = "real VLOvenControllerPhase_t"

record PIDTunings_t =
  kp :: real
  ki :: real
  kd :: real

text \<open>
  Modelled from the spec: the PID library (\<^verbatim>\<open>PID_v1.h\<close>, class \<^verbatim>\<open>PID\<close>) is not part of the
  sources. Section 4.7 of the specification describes it as a discrete PID with a fixed sample
  period, switched between manual and automatic mode, whose output is clamped to the
  configured output limits. The model keeps the mode and the limits. Whether a sample is due
  and the unclamped sum of the three terms are read from the environment, so that the
  sample time and the tunings, which only determine these two, are not kept.
\<close>

record PID =
  inAuto :: bool
  outMin :: real
  outMax :: real

datatype pid_mode = MANUAL | AUTOMATIC

text \<open>Modelled from the spec: \<^verbatim>\<open>PID::SetMode\<close> of the absent PID library.\<close>

definition PID_SetMode :: "pid_mode \<Rightarrow> PID \<Rightarrow> PID" where
  "PID_SetMode m p = p\<lparr>inAuto := (m = AUTOMATIC)\<rparr>"

text \<open>Modelled from the spec: \<^verbatim>\<open>PID::SetOutputLimits\<close> of the absent PID library.\<close>

definition PID_SetOutputLimits :: "real \<Rightarrow> real \<Rightarrow> PID \<Rightarrow> PID" where
  "PID_SetOutputLimits lo hi p = (if lo \<ge> hi then p else p\<lparr>outMin := lo, outMax := hi\<rparr>)"

text \<open>
  Modelled from the spec: \<^verbatim>\<open>PID::Compute\<close> of the absent PID library. In manual mode, or
  when no sample is due, it returns \<^verbatim>\<open>false\<close> (here \<open>None\<close>); otherwise it stores the
  sum of its terms, clamped to the output limits, in the output variable and returns
  \<^verbatim>\<open>true\<close> (here the stored value).
\<close>

definition PID_Compute :: "bool \<Rightarrow> real \<Rightarrow> PID \<Rightarrow> real option" where
  "PID_Compute due raw p =
     (if inAuto p \<and> due
      then Some (if raw > outMax p then outMax p else if raw < outMin p then outMin p else raw)
      else None)"

text \<open>
  What the controller does to its collaborators, in the order of the calls:
  \<^verbatim>\<open>m_Shield.setHeaterDuty\<close> and the events and responses sent through \<^verbatim>\<open>m_Console\<close>.
\<close>

datatype response_status = CONSOLESUCCESS | CONSOLEERROR

datatype response_reason = NOREASON | ARGSCOUNT | ARGOUTOFRANGE | ARGINVALIDOPT | NOMEMORY

datatype effect =
    HeaterDuty real
  | OvenEvent bool
  | PhaseEvent phase
  | PidEvent ulong real real real real
  | ProfileEvent nat
  | Response response_status response_reason

record VLOvenController =
  m_Running :: bool
  m_PID :: PID
  m_lpPhases :: "phase list option"
  m_PhasesCount :: int
  m_CurrentPhase :: int
  m_PID_Setpoint :: real
  m_PID_Input :: real
  m_PID_Output :: real
  m_Slope :: real
  m_PhaseStartTime :: ulong
  m_ProcessStartTime :: ulong
  m_ProfileSampleTime :: ulong
  m_TemperatureSampleTime :: ulong
  m_PIDTunings :: PIDTunings_t
  m_StartTemp :: real
  effects :: "effect list"

text \<open>
  Reading \<^verbatim>\<open>m_lpPhases[i]\<close>. A null pointer or an index outside the array the pointer
  refers to has no defined result in C, and neither has an EEPROM address outside the
  device; the model reports both.
\<close>

datatype fault = InvalidPhaseAccess | EEPROMOutOfRange

definition phase_at :: "phase list option \<Rightarrow> int \<Rightarrow> phase option" where
  "phase_at lp i =
     (case lp of
        None \<Rightarrow> None
      | Some ps \<Rightarrow> if 0 \<le> i \<and> i < int (length ps) then Some (ps ! nat i) else None)"

text \<open>The values read from the clock and the sensor when a phase is started.\<close>

record start_env =
  tc_start :: real
  millis_start :: ulong

text \<open>The values read during one call of \<^verbatim>\<open>doCycle\<close>, one field for each read.\<close>

record cycle_env =
  millis_now :: ulong
  tc_input :: real
  millis_duration :: ulong
  next_phase :: start_env
  pid_due :: bool
  pid_raw :: real
  millis_event :: ulong
  millis_idle :: ulong
  millis_idle_store :: ulong

subsection \<open>The methods of \<^verbatim>\<open>VLOvenController\<close>\<close>

definition SendOvenState :: "VLOvenController \<Rightarrow> VLOvenController" where
  "SendOvenState c = c\<lparr>effects := effects c @ [OvenEvent (m_Running c)]\<rparr>"

definition setHeaterDuty :: "real \<Rightarrow> VLOvenController \<Rightarrow> VLOvenController" where
  "setHeaterDuty d c = c\<lparr>effects := effects c @ [HeaterDuty d]\<rparr>"

definition Stop :: "VLOvenController \<Rightarrow> VLOvenController" where
  "Stop c =
     SendOvenState
       ((setHeaterDuty 0 (c\<lparr>m_PID := PID_SetMode MANUAL (m_PID c)\<rparr>))\<lparr>m_Running := False\<rparr>)"

definition setPhases :: "phase list option \<Rightarrow> int \<Rightarrow> VLOvenController \<Rightarrow> VLOvenController" where
  "setPhases lpPhases Count c =
     ((setHeaterDuty 0 ((Stop c)\<lparr>m_lpPhases := lpPhases, m_CurrentPhase := 0\<rparr>))
        \<lparr>m_PhasesCount := Count, m_Running := False\<rparr>)"

definition SetPIDTunings :: "real \<Rightarrow> real \<Rightarrow> real \<Rightarrow> VLOvenController \<Rightarrow> VLOvenController" where
  "SetPIDTunings p i d c = c\<lparr>m_PIDTunings := \<lparr>kp = p, ki = i, kd = d\<rparr>\<rparr>"

text \<open>The effective slope chosen by \<^verbatim>\<open>startPhase\<close> (lines 98 to 103).\<close>

definition phase_slope :: "phase \<Rightarrow> real \<Rightarrow> real" where
  "phase_slope p StartTemp =
     (if Slope p > 0 then Slope p
      else if sint (Duration p) > 0
        then (EndTemp p - StartTemp) / real_of_int (sint (Duration p))
      else if EndTemp p > StartTemp then MAXIMUM_TEMPERATURE_SLOPE
      else - MAXIMUM_TEMPERATURE_SLOPE)"

definition startPhase :: "start_env \<Rightarrow> int \<Rightarrow> VLOvenController \<Rightarrow> fault + VLOvenController" where
  "startPhase e PhaseIndex c =
     (if PhaseIndex < 0 \<or> PhaseIndex \<ge> m_PhasesCount c
      then Inr (SendOvenState (c\<lparr>m_Running := False, m_CurrentPhase := - 1\<rparr>))
      else
        (case phase_at (m_lpPhases c) PhaseIndex of
           None \<Rightarrow> Inl InvalidPhaseAccess
         | Some p \<Rightarrow>
             Inr (c\<lparr>m_CurrentPhase := PhaseIndex,
                    m_StartTemp := tc_start e,
                    m_Slope := phase_slope p (tc_start e),
                    m_PID_Setpoint := tc_start e,
                    m_PID := PID_SetMode AUTOMATIC
                      (PID_SetOutputLimits PID_OUTPUT_LIMIT_MIN PID_OUTPUT_LIMIT_MAX (m_PID c)),
                    m_PhaseStartTime := millis_start e,
                    m_ProfileSampleTime := millis_start e,
                    effects := effects c @ [PhaseEvent p]\<rparr>)))"

text \<open>\<^verbatim>\<open>Start\<close> returns the running flag together with the new state.\<close>

definition Start :: "ulong \<Rightarrow> start_env \<Rightarrow> VLOvenController \<Rightarrow> fault + (bool \<times> VLOvenController)" where
  "Start now e c =
     (if \<not> m_Running c \<and> m_lpPhases c \<noteq> None
      then
        (case startPhase e 0 (c\<lparr>m_ProcessStartTime := now\<rparr>) of
           Inl f \<Rightarrow> Inl f
         | Inr c1 \<Rightarrow> Inr (True, SendOvenState (c1\<lparr>m_Running := True\<rparr>)))
      else Inr (m_Running c, c))"

definition getProcessDuration :: "ulong \<Rightarrow> VLOvenController \<Rightarrow> ulong" where
  "getProcessDuration now c = (if m_Running c then now - m_ProcessStartTime c else 0)"

definition getPhaseDuration :: "ulong \<Rightarrow> VLOvenController \<Rightarrow> ulong" where
  "getPhaseDuration now c = (if m_Running c then now - m_PhaseStartTime c else 0)"

text \<open>
  The envelope generator of \<^verbatim>\<open>doCycle\<close> (lines 233 to 253): the new set point and the new
  effective slope.
\<close>

definition envelope :: "phase \<Rightarrow> ulong \<Rightarrow> VLOvenController \<Rightarrow> VLOvenController" where
  "envelope p ElapsedPhaseTime c =
     (if m_Slope c \<noteq> 0
      then
        (let sp = m_StartTemp c + m_Slope c * (real (unat ElapsedPhaseTime) / 1000)
         in if m_StartTemp c < EndTemp p
            then (if sp > EndTemp p
                  then c\<lparr>m_PID_Setpoint := EndTemp p, m_Slope := 0\<rparr>
                  else c\<lparr>m_PID_Setpoint := sp\<rparr>)
            else if m_StartTemp c > EndTemp p
            then (if sp < EndTemp p
                  then c\<lparr>m_PID_Setpoint := EndTemp p, m_Slope := 0\<rparr>
                  else c\<lparr>m_PID_Setpoint := sp\<rparr>)
            else c\<lparr>m_PID_Setpoint := sp\<rparr>)
      else c)"

text \<open>The condition under which \<^verbatim>\<open>doCycle\<close> starts the next phase (lines 257 to 271).\<close>

definition phase_done :: "phase \<Rightarrow> ulong \<Rightarrow> VLOvenController \<Rightarrow> bool" where
  "phase_done p now c =
     ((sint (Duration p) > 0
         \<and> int (unat (getPhaseDuration now c) div 1000) \<ge> sint (Duration p))
      \<or> (sint (Duration p) = 0
         \<and> ((m_StartTemp c \<le> EndTemp p \<and> m_PID_Input c \<ge> EndTemp p)
            \<or> (m_StartTemp c \<ge> EndTemp p \<and> m_PID_Input c \<le> EndTemp p))))"

text \<open>The body of the profile sampling branch of \<^verbatim>\<open>doCycle\<close> (lines 231 to 274).\<close>

definition profile_sample :: "cycle_env \<Rightarrow> VLOvenController \<Rightarrow> fault + VLOvenController" where
  "profile_sample e c =
     (case phase_at (m_lpPhases c) (m_CurrentPhase c) of
        None \<Rightarrow> Inl InvalidPhaseAccess
      | Some p \<Rightarrow>
          (let c1 = envelope p (millis_now e - m_PhaseStartTime c)
                      (c\<lparr>m_ProfileSampleTime := millis_now e\<rparr>)
           in if m_Slope c1 = 0 \<and> phase_done p (millis_duration e) c1
              then startPhase (next_phase e) (m_CurrentPhase c1 + 1) c1
              else Inr c1))"

text \<open>The PID step of \<^verbatim>\<open>doCycle\<close> (lines 278 to 297).\<close>

definition pid_step :: "cycle_env \<Rightarrow> VLOvenController \<Rightarrow> VLOvenController" where
  "pid_step e c =
     (case PID_Compute (pid_due e) (pid_raw e) (m_PID c) of
        None \<Rightarrow> c
      | Some out \<Rightarrow>
          (let c1 = setHeaterDuty out (c\<lparr>m_PID_Output := out\<rparr>)
           in c1\<lparr>effects := effects c1 @
                  [PidEvent (getProcessDuration (millis_event e) c1) (m_PID_Input c1)
                     (m_Slope c1) (m_PID_Setpoint c1) (m_PID_Output c1)]\<rparr>))"

text \<open>
  \<^verbatim>\<open>doCycle\<close>. Its first statement, \<^verbatim>\<open>m_Shield.doCycle()\<close>, drives the relay and
  samples the sensor; its results reach the controller only through \<^verbatim>\<open>readTC\<close>, whose
  values are in the environment. A controller that is not running only refreshes the time
  stamp of its temperature log.
\<close>

definition doCycle :: "cycle_env \<Rightarrow> VLOvenController \<Rightarrow> fault + VLOvenController" where
  "doCycle e c =
     (if m_Running c
      then
        (let c1 = c\<lparr>m_PID_Input := tc_input e\<rparr>
         in case (if PROFILE_SAMPLING_TIME \<le> unat (millis_now e - m_ProfileSampleTime c1)
                  then profile_sample e c1 else Inr c1) of
              Inl f \<Rightarrow> Inl f
            | Inr c2 \<Rightarrow> Inr (pid_step e c2))
      else
        Inr (if TEMPLOGSAMPLING_TIME \<le> unat (millis_idle e - m_TemperatureSampleTime c)
             then c\<lparr>m_TemperatureSampleTime := millis_idle_store e\<rparr> else c))"

subsection \<open>Clients of the controller\<close>

text \<open>
  The public methods a client can call, with the values the call reads from outside, and
  the state after a sequence of calls. A call that faults ends the sequence.
\<close>

datatype call =
    CallSetPhases "phase list option" int
  | CallSetPIDTunings real real real
  | CallStart ulong start_env
  | CallStop
  | CallDoCycle cycle_env

fun do_call :: "call \<Rightarrow> VLOvenController \<Rightarrow> fault + VLOvenController" where
  "do_call (CallSetPhases lp n) c = Inr (setPhases lp n c)"
| "do_call (CallSetPIDTunings p i d) c = Inr (SetPIDTunings p i d c)"
| "do_call (CallStart now e) c = map_sum id snd (Start now e c)"
| "do_call CallStop c = Inr (Stop c)"
| "do_call (CallDoCycle e) c = doCycle e c"

fun do_calls :: "call list \<Rightarrow> VLOvenController \<Rightarrow> fault + VLOvenController" where
  "do_calls [] c = Inr c"
| "do_calls (x # xs) c = (case do_call x c of Inl f \<Rightarrow> Inl f | Inr c' \<Rightarrow> do_calls xs c')"

text \<open>
  The state the constructor leaves: no phases, not running, the PID in manual mode, and
  nothing sent yet. The members the constructor does not initialise are arbitrary.
\<close>

definition constructed :: "VLOvenController \<Rightarrow> bool" where
  "constructed c \<longleftrightarrow>
     m_lpPhases c = None \<and> m_CurrentPhase c = 0 \<and> m_PhasesCount c = 0 \<and>
     m_Running c = False \<and> inAuto (m_PID c) = False \<and> effects c = []"

text \<open>The duty cycles passed to \<^verbatim>\<open>setHeaterDuty\<close> so far.\<close>

fun duties :: "effect list \<Rightarrow> real list" where
  "duties [] = []"
| "duties (HeaterDuty d # xs) = d # duties xs"
| "duties (_ # xs) = duties xs"

text \<open>
  The phase terminator in the words of the specification (section 4.8), for a phase of the
  given duration that started at \<open>start_temp\<close>.
\<close>

definition terminator_spec :: "int \<Rightarrow> real \<Rightarrow> real \<Rightarrow> real \<Rightarrow> nat \<Rightarrow> bool" where
  "terminator_spec duration start_temp end_temp sensor phase_elapsed_seconds \<longleftrightarrow>
     (duration > 0 \<and> int phase_elapsed_seconds \<ge> duration) \<or>
     (duration = 0 \<and>
        ((start_temp \<le> end_temp \<and> sensor \<ge> end_temp) \<or>
         (start_temp > end_temp \<and> sensor \<le> end_temp)))"

text \<open>
  Clamping a ramp value at the end temperature in the direction of travel: capped on an
  ascent, floored on a descent.
\<close>

definition clamp_toward :: "real \<Rightarrow> real \<Rightarrow> real \<Rightarrow> real" where
  "clamp_toward start_temp end_temp x =
     (if start_temp < end_temp then min x end_temp
      else if start_temp > end_temp then max x end_temp
      else x)"

text \<open>
  Two facts that every call preserves. The first (\<open>duty_safe\<close>, below): a PID in
  automatic mode has the output limits 0 and 100, and every duty cycle sent so far lies
  between them. The second (\<open>on_envelope\<close>) is what holds of the set point between two profile samples of a running phase: on the ramp
  it is the value computed at the last sample and has not passed the end temperature; in
  hold it is the end temperature, and a phase that ends on temperature is in hold only
  after a ramp that was cut at the end temperature.
\<close>

definition envelope_ok :: "phase \<Rightarrow> VLOvenController \<Rightarrow> bool" where
  "envelope_ok p c \<longleftrightarrow>
     (if m_Slope c \<noteq> 0
      then m_PID_Setpoint c =
             m_StartTemp c + m_Slope c *
               (real (unat (m_ProfileSampleTime c - m_PhaseStartTime c)) / 1000)
           \<and> (m_StartTemp c < EndTemp p \<longrightarrow> m_PID_Setpoint c \<le> EndTemp p)
           \<and> (m_StartTemp c > EndTemp p \<longrightarrow> m_PID_Setpoint c \<ge> EndTemp p)
      else m_PID_Setpoint c = EndTemp p
           \<and> (sint (Duration p) = 0 \<longrightarrow> m_StartTemp c \<noteq> EndTemp p))"

definition on_envelope :: "VLOvenController \<Rightarrow> bool" where
  "on_envelope c \<longleftrightarrow>
     (m_Running c \<longrightarrow>
        (case phase_at (m_lpPhases c) (m_CurrentPhase c) of
           None \<Rightarrow> True
         | Some p \<Rightarrow> envelope_ok p c))"

definition duty_safe :: "VLOvenController \<Rightarrow> bool" where
  "duty_safe c \<longleftrightarrow>
     (inAuto (m_PID c) \<longrightarrow> outMin (m_PID c) = 0 \<and> outMax (m_PID c) = 100) \<and>
     (\<forall>d \<in> set (duties (effects c)). 0 \<le> d \<and> d \<le> 100)"

text \<open>An idle controller and a one-phase profile, used to run the model on examples.\<close>

definition idle_controller :: VLOvenController where
  "idle_controller =
     \<lparr>m_Running = False, m_PID = \<lparr>inAuto = False, outMin = 0, outMax = 255\<rparr>,
      m_lpPhases = None, m_PhasesCount = 0, m_CurrentPhase = 0,
      m_PID_Setpoint = 0, m_PID_Input = 0, m_PID_Output = 0, m_Slope = 0,
      m_PhaseStartTime = 0, m_ProcessStartTime = 0, m_ProfileSampleTime = 0,
      m_TemperatureSampleTime = 0, m_PIDTunings = \<lparr>kp = 300, ki = 0.05, kd = 250\<rparr>,
      m_StartTemp = 0, effects = []\<rparr>"

definition ramp_phase :: "real \<Rightarrow> real \<Rightarrow> int \<Rightarrow> phase" where
  "ramp_phase end_temp slope duration =
     \<lparr>Name = [0x52, 0, 0, 0, 0, 0, 0, 0, 0, 0, 0], EndTemp = end_temp, Slope = slope,
      Duration = word_of_int duration\<rparr>"

definition sample_env :: "ulong \<Rightarrow> real \<Rightarrow> real \<Rightarrow> cycle_env" where
  "sample_env now temp raw =
     \<lparr>millis_now = now, tc_input = temp, millis_duration = now,
      next_phase = \<lparr>tc_start = temp, millis_start = now\<rparr>,
      pid_due = True, pid_raw = raw, millis_event = now,
      millis_idle = now, millis_idle_store = now\<rparr>"

subsection \<open>The profile store of the main sketch\<close>

text \<open>
  The EEPROM is the list of its bytes, \<^verbatim>\<open>EEPROM.length()\<close> long. Offsets and counts are
  16-bit: they are natural numbers here, reduced modulo 65536 where the code computes them.
  A structure in memory is the record of its members, a \<^verbatim>\<open>char\<close> array the list of its
  bytes; \<^verbatim>\<open>EEPROM.get\<close> and \<^verbatim>\<open>EEPROM.put\<close> copy the bytes of a structure, the low
  byte of a number first and without padding.
\<close>

definition PROFILE_NAME_LENGTH :: nat where "PROFILE_NAME_LENGTH = 20"
definition EEPROM_SIGNATURE_LENGTH :: nat where "EEPROM_SIGNATURE_LENGTH = 9"
definition EEPROM_SIGNATURE_OFFSET :: nat where "EEPROM_SIGNATURE_OFFSET = 0"
definition EEPROM_APPDATA_OFFSET :: nat where
  "EEPROM_APPDATA_OFFSET = EEPROM_SIGNATURE_OFFSET + EEPROM_SIGNATURE_LENGTH"

record ProfileHeader_t =
  ProfileName :: "byte list"
  PhasesCount :: "16 word"

type_synonym stored_phase = "32 word VLOvenControllerPhase_t"

text \<open>
  \<^verbatim>\<open>ProfileInfo_t\<close>; a null \<^verbatim>\<open>lpPhases\<close> is \<open>None\<close>. The member \<^verbatim>\<open>EEPromOffset\<close> is
  never read and is left out.
\<close>

record ProfileInfo_t =
  Header :: ProfileHeader_t
  lpPhases :: "stored_phase list option"

definition sizeof_Header :: nat where "sizeof_Header = PROFILE_NAME_LENGTH + 2"
definition sizeof_Phase :: nat where "sizeof_Phase = MAX_PHASENAME_LEN + 4 + 4 + 2"

definition DefaultSignature :: "byte list" where
  "DefaultSignature = [0x56, 0x4C, 0x52, 0x65, 0x66, 0x6C, 0x6F, 0x77, 0]"

text \<open>The bytes of a \<^verbatim>\<open>char\<close> array of a given size, of an \<^verbatim>\<open>int\<close> and of a \<^verbatim>\<open>double\<close>.\<close>

definition char_array :: "nat \<Rightarrow> byte list \<Rightarrow> byte list" where
  "char_array n bs = take n (bs @ replicate n 0)"

definition int_bytes :: "16 word \<Rightarrow> byte list" where
  "int_bytes w = [of_nat (unat w mod 256), of_nat (unat w div 256)]"

fun bytes_int :: "byte list \<Rightarrow> 16 word" where
  "bytes_int (b0 # b1 # bs) = of_nat (unat b0 + 256 * unat b1)"
| "bytes_int bs = 0"

definition double_bytes :: "32 word \<Rightarrow> byte list" where
  "double_bytes w =
     [of_nat (unat w mod 256), of_nat (unat w div 256 mod 256),
      of_nat (unat w div 256 div 256 mod 256), of_nat (unat w div 256 div 256 div 256)]"

fun bytes_double :: "byte list \<Rightarrow> 32 word" where
  "bytes_double (b0 # b1 # b2 # b3 # bs) =
     of_nat (unat b0 + 256 * (unat b1 + 256 * (unat b2 + 256 * unat b3)))"
| "bytes_double bs = 0"

definition header_bytes :: "ProfileHeader_t \<Rightarrow> byte list" where
  "header_bytes h = char_array PROFILE_NAME_LENGTH (ProfileName h) @ int_bytes (PhasesCount h)"

definition bytes_header :: "byte list \<Rightarrow> ProfileHeader_t" where
  "bytes_header bs =
     \<lparr>ProfileName = take PROFILE_NAME_LENGTH bs,
      PhasesCount = bytes_int (drop PROFILE_NAME_LENGTH bs)\<rparr>"

definition phase_bytes :: "stored_phase \<Rightarrow> byte list" where
  "phase_bytes p =
     char_array MAX_PHASENAME_LEN (Name p) @ double_bytes (EndTemp p) @
     double_bytes (Slope p) @ int_bytes (Duration p)"

definition bytes_phase :: "byte list \<Rightarrow> stored_phase" where
  "bytes_phase bs =
     \<lparr>Name = take MAX_PHASENAME_LEN bs,
      EndTemp = bytes_double (drop MAX_PHASENAME_LEN bs),
      Slope = bytes_double (drop (MAX_PHASENAME_LEN + 4) bs),
      Duration = bytes_int (drop (MAX_PHASENAME_LEN + 8) bs)\<rparr>"

type_synonym eeprom = "byte list"

definition EEPROM_get :: "eeprom \<Rightarrow> nat \<Rightarrow> nat \<Rightarrow> fault + byte list" where
  "EEPROM_get ee idx n =
     (if idx + n \<le> length ee then Inr (take n (drop idx ee)) else Inl EEPROMOutOfRange)"

definition EEPROM_put :: "nat \<Rightarrow> byte list \<Rightarrow> eeprom \<Rightarrow> fault + eeprom" where
  "EEPROM_put idx bs ee =
     (if idx + length bs \<le> length ee
      then Inr (take idx ee @ bs @ drop (idx + length bs) ee)
      else Inl EEPROMOutOfRange)"

text \<open>
  The bound of the scanning loops, \<^verbatim>\<open>EEPROM.length() - sizeof(Header)\<close> in unsigned 16-bit
  arithmetic, the step from one record to the next, and an unsigned 16-bit value read as an
  \<^verbatim>\<open>int\<close>.
\<close>

definition scan_limit :: "eeprom \<Rightarrow> nat" where
  "scan_limit ee = (length ee mod 65536 + 65536 - sizeof_Header) mod 65536"

definition next_offset :: "nat \<Rightarrow> ProfileHeader_t \<Rightarrow> nat" where
  "next_offset Offset h = (Offset + (sizeof_Header + unat (PhasesCount h) * sizeof_Phase)) mod 65536"

definition as_int :: "nat \<Rightarrow> int" where
  "as_int n = sint (word_of_nat n :: 16 word)"

partial_function (option) GetProfilesCount_loop :: "eeprom \<Rightarrow> nat \<Rightarrow> nat \<Rightarrow> (fault + nat) option" where
  "GetProfilesCount_loop ee Offset Count =
     (if Offset < scan_limit ee
      then
        (case EEPROM_get ee Offset sizeof_Header of
           Inl f \<Rightarrow> Some (Inl f)
         | Inr bs \<Rightarrow>
             if hd (ProfileName (bytes_header bs)) = 0 then Some (Inr Count)
             else GetProfilesCount_loop ee (next_offset Offset (bytes_header bs)) (Count + 1))
      else Some (Inr Count))"

definition GetProfilesCount :: "eeprom \<Rightarrow> (fault + int) option" where
  "GetProfilesCount ee =
     map_option (map_sum id as_int) (GetProfilesCount_loop ee EEPROM_APPDATA_OFFSET 0)"


text \<open>
  The number of whole phases in the block that \<^verbatim>\<open>AllocProfilePhases\<close> requests: the size
  \<^verbatim>\<open>PhasesCount * sizeof(VLOvenControllerPhase_t)\<close> is computed in 16 bits.
\<close>

definition alloc_capacity :: "16 word \<Rightarrow> nat" where
  "alloc_capacity n = ((unat n * sizeof_Phase) mod 65536) div sizeof_Phase"

function EEPROMFormat_loop :: "nat \<Rightarrow> eeprom \<Rightarrow> eeprom" where
  "EEPROMFormat_loop i ee = (if i < length ee then EEPROMFormat_loop (i + 1) (ee[i := 0]) else ee)"
  by pat_completeness auto
termination
  by (relation "measure (\<lambda>(i, ee). length ee - i)") auto

definition EEPROMFormat :: "eeprom \<Rightarrow> fault + eeprom" where
  "EEPROMFormat ee =
     (case EEPROM_put EEPROM_SIGNATURE_OFFSET DefaultSignature ee of
        Inl f \<Rightarrow> Inl f
      | Inr ee1 \<Rightarrow> Inr (EEPROMFormat_loop EEPROM_APPDATA_OFFSET ee1))"

fun CopyToEEPROM :: "byte list \<Rightarrow> nat \<Rightarrow> eeprom \<Rightarrow> fault + (nat \<times> eeprom)" where
  "CopyToEEPROM [] EEOffset ee = Inr (EEOffset, ee)"
| "CopyToEEPROM (b # lpSrc) EEOffset ee =
     (if EEOffset < length ee then CopyToEEPROM lpSrc (EEOffset + 1) (ee[EEOffset := b])
      else Inl EEPROMOutOfRange)"

partial_function (option) FindFreeEEPROMStart_loop :: "eeprom \<Rightarrow> nat \<Rightarrow> (fault + int) option" where
  "FindFreeEEPROMStart_loop ee Offset =
     (if Offset < scan_limit ee
      then
        (case EEPROM_get ee Offset sizeof_Header of
           Inl f \<Rightarrow> Some (Inl f)
         | Inr bs \<Rightarrow>
             if hd (ProfileName (bytes_header bs)) = 0 then Some (Inr (as_int Offset))
             else FindFreeEEPROMStart_loop ee (next_offset Offset (bytes_header bs)))
      else Some (Inr (- 1)))"

definition FindFreeEEPROMStart :: "eeprom \<Rightarrow> (fault + int) option" where
  "FindFreeEEPROMStart ee = FindFreeEEPROMStart_loop ee EEPROM_APPDATA_OFFSET"

text \<open>
  The bytes \<^verbatim>\<open>EEPROMAppendProfile\<close> copies from the phase array: as many as the 16-bit
  product of the phase count and the size of a phase. Reading past the array is a fault.
\<close>

definition phases_memory :: "ProfileInfo_t \<Rightarrow> fault + byte list" where
  "phases_memory Profile =
     (case lpPhases Profile of
        None \<Rightarrow> Inl InvalidPhaseAccess
      | Some ps \<Rightarrow>
          (let n = (unat (PhasesCount (Header Profile)) * sizeof_Phase) mod 65536;
               bs = concat (map phase_bytes ps)
           in if n \<le> length bs then Inr (take n bs) else Inl InvalidPhaseAccess))"

text \<open>
  \<^verbatim>\<open>EEPROMAppendProfile\<close> returns \<^verbatim>\<open>false\<close> when there is no free offset. When it has
  written the profile it ends without a \<^verbatim>\<open>return\<close> statement: the returned flag is then
  \<open>None\<close>.
\<close>

definition EEPROMAppendProfile :: "ProfileInfo_t \<Rightarrow> eeprom \<Rightarrow> (fault + (bool option \<times> eeprom)) option" where
  "EEPROMAppendProfile lpProfile ee =
     (case FindFreeEEPROMStart ee of
        None \<Rightarrow> None
      | Some (Inl f) \<Rightarrow> Some (Inl f)
      | Some (Inr Offset) \<Rightarrow>
          if Offset \<le> 0 then Some (Inr (Some False, ee))
          else
            (case EEPROM_put (nat Offset) (header_bytes (Header lpProfile)) ee of
               Inl f \<Rightarrow> Some (Inl f)
             | Inr ee1 \<Rightarrow>
                 (case phases_memory lpProfile of
                    Inl f \<Rightarrow> Some (Inl f)
                  | Inr bs \<Rightarrow>
                      (case CopyToEEPROM bs (nat Offset + sizeof_Header) ee1 of
                         Inl f \<Rightarrow> Some (Inl f)
                       | Inr (Offset', ee2) \<Rightarrow> Some (Inr (None, ee2))))))"

text \<open>
  The default profiles in program memory. A name initialiser shorter than the array leaves
  the remaining bytes zero.
\<close>

definition flash_name :: "nat \<Rightarrow> string \<Rightarrow> byte list" where
  "flash_name n s = char_array n (map of_char s)"

definition PBFREEREFLOWCONTROLLER_PHASES :: "phase list" where
  "PBFREEREFLOWCONTROLLER_PHASES =
     [\<lparr>Name = flash_name MAX_PHASENAME_LEN ''Preheat-1'', EndTemp = 50, Slope = 2, Duration = 0\<rparr>,
      \<lparr>Name = flash_name MAX_PHASENAME_LEN ''Preheat-2'', EndTemp = 150, Slope = 2, Duration = 0\<rparr>,
      \<lparr>Name = flash_name MAX_PHASENAME_LEN ''Soak-1'', EndTemp = 200, Slope = 0, Duration = 100\<rparr>,
      \<lparr>Name = flash_name MAX_PHASENAME_LEN ''Soak-2'', EndTemp = 217, Slope = 2, Duration = 0\<rparr>,
      \<lparr>Name = flash_name MAX_PHASENAME_LEN ''Reflow-1'', EndTemp = 245, Slope = 0, Duration = 20\<rparr>,
      \<lparr>Name = flash_name MAX_PHASENAME_LEN ''Reflow-1'', EndTemp = 217, Slope = 0, Duration = 20\<rparr>,
      \<lparr>Name = flash_name MAX_PHASENAME_LEN ''Cooling'', EndTemp = 100, Slope = - 3, Duration = 0\<rparr>,
      \<lparr>Name = flash_name MAX_PHASENAME_LEN ''Done(HOT)'', EndTemp = 50, Slope = - 10, Duration = 0\<rparr>]"

definition OVENCONTROLLER_PHASES :: "phase list" where
  "OVENCONTROLLER_PHASES =
     [\<lparr>Name = flash_name MAX_PHASENAME_LEN ''Heating'', EndTemp = 50, Slope = 2, Duration = 0\<rparr>,
      \<lparr>Name = flash_name MAX_PHASENAME_LEN ''Hot'', EndTemp = 50, Slope = 0, Duration = - 1\<rparr>]"

definition OVENCONTROLLER_PROFILEHEADER :: ProfileHeader_t where
  "OVENCONTROLLER_PROFILEHEADER =
     \<lparr>ProfileName = flash_name PROFILE_NAME_LENGTH ''Oven Controller'',
      PhasesCount = of_nat (length OVENCONTROLLER_PHASES)\<rparr>"

definition PBFREEREFLOWCONTROLLER_PROFILEHEADER :: ProfileHeader_t where
  "PBFREEREFLOWCONTROLLER_PROFILEHEADER =
     \<lparr>ProfileName = flash_name PROFILE_NAME_LENGTH ''PbFree - Reflow'',
      PhasesCount = of_nat (length PBFREEREFLOWCONTROLLER_PHASES)\<rparr>"

text \<open>
  A phase as it lies in program memory and in the store: its two \<^verbatim>\<open>double\<close> members are
  bit patterns. The representation \<open>dbl\<close> of a \<^verbatim>\<open>double\<close> constant is fixed by the
  compiler and is a parameter here.
\<close>

definition flash_phase :: "(real \<Rightarrow> 32 word) \<Rightarrow> phase \<Rightarrow> stored_phase" where
  "flash_phase dbl p =
     \<lparr>Name = Name p, EndTemp = dbl (EndTemp p), Slope = dbl (Slope p), Duration = Duration p\<rparr>"

text \<open>
  One of the two blocks of \<^verbatim>\<open>EEPROMRegisterDefaultProfiles\<close>: copy the header from
  program memory, reserve the phases, copy as many phases as the header counts, append the
  profile and release the phases. When the memory cannot be reserved nothing is stored.
\<close>

definition register_default ::
  "(real \<Rightarrow> 32 word) \<Rightarrow> bool \<Rightarrow> ProfileHeader_t \<Rightarrow> phase list \<Rightarrow> eeprom \<Rightarrow> (fault + eeprom) option" where
  "register_default dbl alloc_ok header phases ee =
     (if alloc_ok
      then
        (case EEPROMAppendProfile
                \<lparr>Header = header,
                 lpPhases = Some (map (flash_phase dbl) (take (unat (PhasesCount header)) phases))\<rparr> ee of
           None \<Rightarrow> None
         | Some (Inl f) \<Rightarrow> Some (Inl f)
         | Some (Inr (r, ee')) \<Rightarrow> Some (Inr ee'))
      else Some (Inr ee))"

definition EEPROMRegisterDefaultProfiles ::
  "(real \<Rightarrow> 32 word) \<Rightarrow> bool \<Rightarrow> bool \<Rightarrow> eeprom \<Rightarrow> (fault + eeprom) option" where
  "EEPROMRegisterDefaultProfiles dbl alloc1 alloc2 ee =
     (case register_default dbl alloc1 OVENCONTROLLER_PROFILEHEADER OVENCONTROLLER_PHASES ee of
        None \<Rightarrow> None
      | Some (Inl f) \<Rightarrow> Some (Inl f)
      | Some (Inr ee1) \<Rightarrow>
          register_default dbl alloc2 PBFREEREFLOWCONTROLLER_PROFILEHEADER
            PBFREEREFLOWCONTROLLER_PHASES ee1)"

partial_function (option) LoadProfileHeader_loop ::
  "eeprom \<Rightarrow> nat \<Rightarrow> int \<Rightarrow> ProfileHeader_t \<Rightarrow> (fault + (int \<times> ProfileHeader_t)) option" where
  "LoadProfileHeader_loop ee Offset ProfileIndex Header0 =
     (if Offset < scan_limit ee
      then
        (case EEPROM_get ee Offset sizeof_Header of
           Inl f \<Rightarrow> Some (Inl f)
         | Inr bs \<Rightarrow>
             if hd (ProfileName (bytes_header bs)) = 0 then Some (Inr (- 1, bytes_header bs))
             else if ProfileIndex = 0 then Some (Inr (as_int Offset, bytes_header bs))
             else LoadProfileHeader_loop ee (next_offset Offset (bytes_header bs))
                    (ProfileIndex - 1) (bytes_header bs))
      else Some (Inr (- 1, Header0)))"

text \<open>
  \<^verbatim>\<open>LoadProfileHeader\<close> returns the offset, or -1, together with the header it has left in
  its reference argument.
\<close>

definition LoadProfileHeader ::
  "ProfileHeader_t \<Rightarrow> int \<Rightarrow> eeprom \<Rightarrow> (fault + (int \<times> ProfileHeader_t)) option" where
  "LoadProfileHeader Header0 ProfileIndex ee =
     (if ProfileIndex \<ge> 0
      then LoadProfileHeader_loop ee EEPROM_APPDATA_OFFSET ProfileIndex Header0
      else Some (Inr (- 1, Header0)))"

fun read_phases :: "eeprom \<Rightarrow> nat \<Rightarrow> nat \<Rightarrow> fault + stored_phase list" where
  "read_phases ee Offset 0 = Inr []"
| "read_phases ee Offset (Suc Count) =
     (case EEPROM_get ee Offset sizeof_Phase of
        Inl f \<Rightarrow> Inl f
      | Inr bs \<Rightarrow>
          (case read_phases ee (Offset + sizeof_Phase) Count of
             Inl f \<Rightarrow> Inl f
           | Inr ps \<Rightarrow> Inr (bytes_phase bs # ps)))"

text \<open>
  \<^verbatim>\<open>LoadProfile\<close> returns its result together with the profile it has left in its reference
  argument. Reading more phases than the reserved block holds is a fault.
\<close>

definition LoadProfile ::
  "bool \<Rightarrow> ProfileInfo_t \<Rightarrow> int \<Rightarrow> eeprom \<Rightarrow> (fault + (bool \<times> ProfileInfo_t)) option" where
  "LoadProfile alloc_ok ProfileInfo ProfileIndex ee =
     (if ProfileIndex < 0 then Some (Inr (False, ProfileInfo))
      else
        (case LoadProfileHeader (Header ProfileInfo) ProfileIndex ee of
           None \<Rightarrow> None
         | Some (Inl f) \<Rightarrow> Some (Inl f)
         | Some (Inr (Offset, h)) \<Rightarrow>
             if Offset > 0
             then
               (if alloc_ok
                then
                  (if unat (PhasesCount h) \<le> alloc_capacity (PhasesCount h)
                   then
                     (case read_phases ee (nat Offset + sizeof_Header) (unat (PhasesCount h)) of
                        Inl f \<Rightarrow> Some (Inl f)
                      | Inr ps \<Rightarrow> Some (Inr (True, \<lparr>Header = h, lpPhases = Some ps\<rparr>)))
                   else Some (Inl InvalidPhaseAccess))
                else Some (Inr (False,
                       \<lparr>Header = h\<lparr>ProfileName := (ProfileName h)[0 := 0]\<rparr>, lpPhases = None\<rparr>)))
             else Some (Inr (False, ProfileInfo\<lparr>Header := h\<rparr>))))"

subsection \<open>Catalogs\<close>

text \<open>
  A profile is well formed in memory when its arrays have their declared sizes, its name is
  not empty, and its phase array holds as many phases as the header counts, at least one.
  An EEPROM holds the catalog \<open>ps\<close> when, after the signature, it consists of the records
  of \<open>ps\<close> one after the other followed by \<open>z\<close> zero bytes. These are the states that
  formatting and appending produce. The device is smaller than 32768 bytes, so that every
  offset is a positive \<^verbatim>\<open>int\<close>, and has room for the signature and one header.
\<close>

definition profile_size :: "ProfileInfo_t \<Rightarrow> nat" where
  "profile_size p = sizeof_Header + unat (PhasesCount (Header p)) * sizeof_Phase"

definition total_size :: "ProfileInfo_t list \<Rightarrow> nat" where
  "total_size ps = sum_list (map profile_size ps)"

definition profile_bytes :: "ProfileInfo_t \<Rightarrow> byte list" where
  "profile_bytes p =
     header_bytes (Header p) @ concat (map phase_bytes (case lpPhases p of None \<Rightarrow> [] | Some ps \<Rightarrow> ps))"

definition valid_profile :: "ProfileInfo_t \<Rightarrow> bool" where
  "valid_profile p \<longleftrightarrow>
     length (ProfileName (Header p)) = PROFILE_NAME_LENGTH \<and>
     hd (ProfileName (Header p)) \<noteq> 0 \<and>
     (case lpPhases p of
        None \<Rightarrow> False
      | Some ps \<Rightarrow>
          length ps = unat (PhasesCount (Header p)) \<and> 0 < length ps \<and>
          list_all (\<lambda>ph. length (Name ph) = MAX_PHASENAME_LEN) ps)"

definition catalog :: "ProfileInfo_t list \<Rightarrow> nat \<Rightarrow> eeprom \<Rightarrow> bool" where
  "catalog ps z ee \<longleftrightarrow>
     length ee < 32768 \<and> EEPROM_APPDATA_OFFSET + sizeof_Header \<le> length ee \<and>
     list_all valid_profile ps \<and>
     drop EEPROM_APPDATA_OFFSET ee = concat (map profile_bytes ps) @ replicate z 0"

text \<open>The two default profiles as they are read back from the store.\<close>

definition oven_profile :: "(real \<Rightarrow> 32 word) \<Rightarrow> ProfileInfo_t" where
  "oven_profile dbl =
     \<lparr>Header = OVENCONTROLLER_PROFILEHEADER,
      lpPhases = Some (map (flash_phase dbl) OVENCONTROLLER_PHASES)\<rparr>"

definition reflow_profile :: "(real \<Rightarrow> 32 word) \<Rightarrow> ProfileInfo_t" where
  "reflow_profile dbl =
     \<lparr>Header = PBFREEREFLOWCONTROLLER_PROFILEHEADER,
      lpPhases = Some (map (flash_phase dbl) PBFREEREFLOWCONTROLLER_PHASES)\<rparr>"

subsection \<open>The profile commands of the main sketch\<close>

text \<open>
  The global state of the sketch. The console and the shield are shared with the
  controller, whose list of effects also takes what the sketch sends.
\<close>

record sketch =
  m_Controller :: VLOvenController
  m_CurrentProfileIndex :: "16 word"
  m_ActiveProfile :: ProfileInfo_t
  EEPROM :: eeprom

definition sendResponse :: "response_status \<Rightarrow> response_reason \<Rightarrow> sketch \<Rightarrow> sketch" where
  "sendResponse st r s =
     s\<lparr>m_Controller := (m_Controller s)\<lparr>effects := effects (m_Controller s) @ [Response st r]\<rparr>\<rparr>"



text \<open>
  The phases the controller runs are the stored ones; \<open>dval\<close> is the number a stored
  \<^verbatim>\<open>double\<close> stands for.
\<close>

definition phase_value :: "(32 word \<Rightarrow> real) \<Rightarrow> stored_phase \<Rightarrow> phase" where
  "phase_value dval p =
     \<lparr>Name = Name p, EndTemp = dval (EndTemp p), Slope = dval (Slope p), Duration = Duration p\<rparr>"

text \<open>
  The branch of \<^verbatim>\<open>CmdProfiles\<close> for the argument \<^verbatim>\<open>on\<close> (lines 1037 to 1049). The
  arguments are the words after the command name, \<^verbatim>\<open>argsCount()\<close> is their number.
\<close>

definition CmdProfiles_on ::
  "(32 word \<Rightarrow> real) \<Rightarrow> ulong \<Rightarrow> start_env \<Rightarrow> string list \<Rightarrow> sketch \<Rightarrow> fault + sketch" where
  "CmdProfiles_on dval now e args s =
     (if length args \<noteq> 1 then Inr (sendResponse CONSOLEERROR ARGSCOUNT s)
      else if lpPhases (m_ActiveProfile s) = None
      then Inr (sendResponse CONSOLEERROR ARGINVALIDOPT s)
      else
        (case Start now e
                (setPhases (map_option (map (phase_value dval)) (lpPhases (m_ActiveProfile s)))
                   (sint (PhasesCount (Header (m_ActiveProfile s)))) (m_Controller s)) of
           Inl f \<Rightarrow> Inl f
         | Inr (r, c) \<Rightarrow> Inr (sendResponse CONSOLESUCCESS NOREASON (s\<lparr>m_Controller := c\<rparr>))))"



subsection \<open>Example runs\<close>

text \<open>
  A one-phase ascent to 100 degrees at 2 degrees per second started at 25 degrees, and a
  phase with the same positive slope whose end temperature of 50 degrees lies below the
  100 degrees at which it starts.
\<close>

definition ascent_calls :: "call list" where
  "ascent_calls =
     [CallSetPhases (Some [ramp_phase 100 2 0]) 1,
      CallStart 0 \<lparr>tc_start = 25, millis_start = 0\<rparr>]"

definition ascent_started :: VLOvenController where
  "ascent_started = projr (do_calls ascent_calls idle_controller)"

definition descent_calls :: "call list" where
  "descent_calls =
     [CallSetPhases (Some [ramp_phase 50 2 0]) 1,
      CallStart 0 \<lparr>tc_start = 100, millis_start = 0\<rparr>]"

definition descent_started :: VLOvenController where
  "descent_started = projr (do_calls descent_calls idle_controller)"

text \<open>
  Examples for the store and the commands: a representation of \<^verbatim>\<open>double\<close> constants
  that keeps the integer part, a profile buffer, a formatted device of 1024 bytes, a device
  of 300 bytes that holds the first default profile, a profile of 48 equal phases, and a
  sketch whose device is the formatted one. The value of a string of decimal digits stands
  for \<^verbatim>\<open>atoi\<close>.
\<close>

definition example_dbl :: "real \<Rightarrow> 32 word" where
  "example_dbl x = word_of_int \<lfloor>x\<rfloor>"

definition empty_info :: ProfileInfo_t where
  "empty_info = \<lparr>Header = \<lparr>ProfileName = replicate 20 0, PhasesCount = 0\<rparr>, lpPhases = None\<rparr>"

definition formatted_1024 :: eeprom where
  "formatted_1024 = DefaultSignature @ replicate 1015 0"

definition one_profile_300 :: eeprom where
  "one_profile_300 =
     DefaultSignature @ profile_bytes (oven_profile example_dbl) @ replicate 227 0"

definition hold_phase :: stored_phase where
  "hold_phase =
     \<lparr>Name = flash_name MAX_PHASENAME_LEN ''Hold'', EndTemp = 0, Slope = 0, Duration = 0\<rparr>"

definition long_profile :: ProfileInfo_t where
  "long_profile =
     \<lparr>Header = \<lparr>ProfileName = flash_name PROFILE_NAME_LENGTH ''Long'', PhasesCount = 48\<rparr>,
      lpPhases = Some (replicate 48 hold_phase)\<rparr>"

definition idle_sketch :: sketch where
  "idle_sketch =
     \<lparr>m_Controller = idle_controller, m_CurrentProfileIndex = 0,
      m_ActiveProfile = empty_info, EEPROM = formatted_1024\<rparr>"


section \<open>Properties of the controller\<close>

lemmas controller_defs =
  Start_def startPhase_def Stop_def setPhases_def SendOvenState_def setHeaterDuty_def
  PID_SetMode_def PID_SetOutputLimits_def PID_Compute_def PID_OUTPUT_LIMIT_MIN_def
  PID_OUTPUT_LIMIT_MAX_def PROFILE_SAMPLING_TIME_def TEMPLOGSAMPLING_TIME_def
  MAXIMUM_TEMPERATURE_SLOPE_def phase_slope_def phase_at_def doCycle_def profile_sample_def
  envelope_def phase_done_def pid_step_def getPhaseDuration_def getProcessDuration_def
  SetPIDTunings_def

lemmas example_defs =
  idle_controller_def ramp_phase_def sample_env_def ascent_calls_def ascent_started_def
  descent_calls_def descent_started_def


lemma envelope_frame:
  "m_PID (envelope p t c) = m_PID c" "effects (envelope p t c) = effects c"
  "m_lpPhases (envelope p t c) = m_lpPhases c" "m_CurrentPhase (envelope p t c) = m_CurrentPhase c"
  "m_StartTemp (envelope p t c) = m_StartTemp c" "m_PhaseStartTime (envelope p t c) = m_PhaseStartTime c"
  "m_ProfileSampleTime (envelope p t c) = m_ProfileSampleTime c"
  "m_Running (envelope p t c) = m_Running c" "m_PID_Input (envelope p t c) = m_PID_Input c"
  "m_PhasesCount (envelope p t c) = m_PhasesCount c"
  by (simp_all add: envelope_def Let_def)

lemma duties_append: "duties (xs @ ys) = duties xs @ duties ys"
  by (induction xs rule: duties.induct) simp_all

lemma duty_safe_Stop: "duty_safe c \<Longrightarrow> duty_safe (Stop c)"
  by (simp add: duty_safe_def Stop_def SendOvenState_def setHeaterDuty_def PID_SetMode_def
      duties_append)

lemma duty_safe_setPhases: "duty_safe c \<Longrightarrow> duty_safe (setPhases lp n c)"
  using duty_safe_Stop [of c]
  by (simp add: duty_safe_def setPhases_def setHeaterDuty_def duties_append)

lemma duty_safe_startPhase:
  "duty_safe c \<Longrightarrow> startPhase e i c = Inr c' \<Longrightarrow> duty_safe c'"
  by (auto simp: duty_safe_def startPhase_def SendOvenState_def PID_SetMode_def
      PID_SetOutputLimits_def PID_OUTPUT_LIMIT_MIN_def PID_OUTPUT_LIMIT_MAX_def duties_append
      split: if_splits option.splits)

lemma duty_safe_Start:
  "duty_safe c \<Longrightarrow> Start now e c = Inr (r, c') \<Longrightarrow> duty_safe c'"
proof -
  assume inv: "duty_safe c" and st: "Start now e c = Inr (r, c')"
  show ?thesis
  proof (cases "\<not> m_Running c \<and> m_lpPhases c \<noteq> None")
    case False
    with st inv show ?thesis by (auto simp: Start_def)
  next
    case True
    with st obtain c1 where
      c1: "startPhase e 0 (c\<lparr>m_ProcessStartTime := now\<rparr>) = Inr c1"
      and c': "c' = SendOvenState (c1\<lparr>m_Running := True\<rparr>)"
      by (auto simp: Start_def split: sum.splits)
    from inv have "duty_safe (c\<lparr>m_ProcessStartTime := now\<rparr>)"
      by (simp add: duty_safe_def)
    from duty_safe_startPhase [OF this c1] show ?thesis
      by (simp add: c' duty_safe_def SendOvenState_def duties_append)
  qed
qed

lemma duty_safe_pid_step: "duty_safe c \<Longrightarrow> duty_safe (pid_step e c)"
  by (auto simp: duty_safe_def pid_step_def PID_Compute_def setHeaterDuty_def Let_def
      duties_append split: option.splits if_splits)

lemma duty_safe_profile_sample:
  "duty_safe c \<Longrightarrow> profile_sample e c = Inr c' \<Longrightarrow> duty_safe c'"
proof -
  assume inv: "duty_safe c" and ps: "profile_sample e c = Inr c'"
  from ps obtain p where p: "phase_at (m_lpPhases c) (m_CurrentPhase c) = Some p"
    by (auto simp: profile_sample_def split: option.splits)
  define c1 where "c1 = envelope p (millis_now e - m_PhaseStartTime c)
                      (c\<lparr>m_ProfileSampleTime := millis_now e\<rparr>)"
  from inv have c1: "duty_safe c1"
    by (simp add: duty_safe_def c1_def envelope_frame)
  from ps p have "c' = c1 \<or> startPhase (next_phase e) (m_CurrentPhase c1 + 1) c1 = Inr c'"
    by (auto simp: profile_sample_def Let_def c1_def split: if_splits)
  with c1 show ?thesis using duty_safe_startPhase by blast
qed

lemma duty_safe_doCycle:
  "duty_safe c \<Longrightarrow> doCycle e c = Inr c' \<Longrightarrow> duty_safe c'"
proof -
  assume inv: "duty_safe c" and dc: "doCycle e c = Inr c'"
  show ?thesis
  proof (cases "m_Running c")
    case False
    with dc inv show ?thesis by (auto simp: doCycle_def duty_safe_def split: if_splits)
  next
    case True
    from inv have c1: "duty_safe (c\<lparr>m_PID_Input := tc_input e\<rparr>)"
      by (simp add: duty_safe_def)
    from True dc obtain c2 where
      c2: "c2 = c\<lparr>m_PID_Input := tc_input e\<rparr> \<or>
           profile_sample e (c\<lparr>m_PID_Input := tc_input e\<rparr>) = Inr c2"
      and c': "c' = pid_step e c2"
      by (auto simp: doCycle_def Let_def split: if_splits sum.splits)
    from c2 c1 have "duty_safe c2" using duty_safe_profile_sample by blast
    then show ?thesis unfolding c' by (rule duty_safe_pid_step)
  qed
qed

lemma duty_safe_do_call: "duty_safe c \<Longrightarrow> do_call x c = Inr c' \<Longrightarrow> duty_safe c'"
proof (cases x)
  case (CallStart now e)
  assume "duty_safe c" "do_call x c = Inr c'"
  then show ?thesis using CallStart duty_safe_Start [of c now e]
    by (cases "Start now e c") auto
next
  case (CallSetPIDTunings p i d)
  assume "duty_safe c" "do_call x c = Inr c'"
  then show ?thesis using CallSetPIDTunings by (auto simp: SetPIDTunings_def duty_safe_def)
qed (auto simp: duty_safe_setPhases duty_safe_Stop duty_safe_doCycle)

lemma duty_safe_do_calls: "duty_safe c \<Longrightarrow> do_calls xs c = Inr c' \<Longrightarrow> duty_safe c'"
proof (induction xs arbitrary: c)
  case Nil
  then show ?case by simp
next
  case (Cons x xs)
  then show ?case
    by (auto split: sum.splits dest: duty_safe_do_call)
qed

text \<open>
  Claim C4. From the constructed state, after any sequence of calls of the public methods
  with any clock, sensor and PID readings, every duty cycle the controller has passed to
  \<^verbatim>\<open>setHeaterDuty\<close> lies between 0 and 100: the output of the PID is clamped to
  the limits 0 and 100 that \<^verbatim>\<open>startPhase\<close> sets before it switches the PID to
  automatic, and every other duty is the constant 0.
\<close>

theorem duty_in_range:
  "constructed c0 \<Longrightarrow> do_calls xs c0 = Inr c \<Longrightarrow> \<forall>d \<in> set (duties (effects c)). 0 \<le> d \<and> d \<le> 100"
proof -
  assume "constructed c0" and run: "do_calls xs c0 = Inr c"
  then have "duty_safe c0" by (simp add: constructed_def duty_safe_def)
  from duty_safe_do_calls [OF this run] show ?thesis by (simp add: duty_safe_def)
qed

lemma envelope_ok_upd:
  "envelope_ok p (c\<lparr>effects := x\<rparr>) = envelope_ok p c"
  "envelope_ok p (c\<lparr>m_PID_Input := y\<rparr>) = envelope_ok p c"
  "envelope_ok p (c\<lparr>m_PIDTunings := z\<rparr>) = envelope_ok p c"
  "envelope_ok p (c\<lparr>m_Running := r\<rparr>) = envelope_ok p c"
  by (simp_all add: envelope_ok_def)

lemma on_envelope_iff:
  "on_envelope c \<longleftrightarrow>
     (m_Running c \<longrightarrow>
       (\<forall>p. phase_at (m_lpPhases c) (m_CurrentPhase c) = Some p \<longrightarrow> envelope_ok p c))"
  by (simp add: on_envelope_def split: option.splits)

lemma on_envelope_idle: "\<not> m_Running c \<Longrightarrow> on_envelope c"
  by (simp add: on_envelope_def)

lemma phase_slope_zero:
  "phase_slope p s = 0 \<Longrightarrow> EndTemp p = s \<and> sint (Duration p) > 0"
proof -
  assume z: "phase_slope p s = 0"
  define d where "d = sint (Duration p)"
  from z have "\<not> Slope p > 0" and "d > 0" and "(EndTemp p - s) / real_of_int d = 0"
    unfolding d_def
    by (auto simp del: of_int_sint simp: phase_slope_def MAXIMUM_TEMPERATURE_SLOPE_def
        split: if_splits)
  then show ?thesis unfolding d_def [symmetric] by simp
qed

lemma envelope_ok_startPhase:
  assumes "startPhase e i c = Inr c'" "phase_at (m_lpPhases c') (m_CurrentPhase c') = Some p"
  shows "envelope_ok p c'"
proof (cases "i < 0 \<or> i \<ge> m_PhasesCount c")
  case True
  with assms(1) have "c' = SendOvenState (c\<lparr>m_Running := False, m_CurrentPhase := - 1\<rparr>)"
    by (simp add: startPhase_def)
  with assms(2) show ?thesis
    by (simp add: SendOvenState_def phase_at_def split: option.splits)
next
  case False
  with assms(1) obtain q where q: "phase_at (m_lpPhases c) i = Some q"
    by (auto simp: startPhase_def split: option.splits)
  with False assms show ?thesis
    using phase_slope_zero [of q "tc_start e"]
    by (auto simp: startPhase_def envelope_ok_def)
qed

lemma envelope_ok_envelope:
  assumes "envelope_ok p c"
  shows "envelope_ok p (envelope p (now - m_PhaseStartTime c) (c\<lparr>m_ProfileSampleTime := now\<rparr>))"
  using assms
  by (auto simp: envelope_ok_def envelope_def Let_def)

lemma envelope_ok_pid_step: "envelope_ok p (pid_step e c) = envelope_ok p c"
  by (auto simp: envelope_ok_def pid_step_def setHeaterDuty_def Let_def split: option.splits)

lemma pid_step_frame:
  "m_Running (pid_step e c) = m_Running c" "m_lpPhases (pid_step e c) = m_lpPhases c"
  "m_CurrentPhase (pid_step e c) = m_CurrentPhase c"
  "m_PID_Setpoint (pid_step e c) = m_PID_Setpoint c" "m_Slope (pid_step e c) = m_Slope c"
  "m_StartTemp (pid_step e c) = m_StartTemp c"
  by (simp_all add: pid_step_def setHeaterDuty_def Let_def split: option.splits)

lemma on_envelope_pid_step: "on_envelope c \<Longrightarrow> on_envelope (pid_step e c)"
  by (simp add: on_envelope_iff envelope_ok_pid_step pid_step_frame)

lemma on_envelope_profile_sample:
  assumes "on_envelope c" "m_Running c" "profile_sample e c = Inr c'"
  shows "on_envelope c'"
proof -
  from assms obtain p where p: "phase_at (m_lpPhases c) (m_CurrentPhase c) = Some p"
    by (auto simp: profile_sample_def split: option.splits)
  define c1 where "c1 = envelope p (millis_now e - m_PhaseStartTime c)
                      (c\<lparr>m_ProfileSampleTime := millis_now e\<rparr>)"
  from assms(1,2) p have "envelope_ok p c" by (simp add: on_envelope_iff)
  then have "envelope_ok p c1" unfolding c1_def by (rule envelope_ok_envelope)
  with p have c1: "on_envelope c1"
    by (simp add: on_envelope_iff c1_def envelope_frame)
  from assms(3) p have "c' = c1 \<or> startPhase (next_phase e) (m_CurrentPhase c1 + 1) c1 = Inr c'"
    by (auto simp: profile_sample_def Let_def c1_def split: if_splits)
  then show ?thesis
  proof
    assume "c' = c1" with c1 show ?thesis by simp
  next
    assume "startPhase (next_phase e) (m_CurrentPhase c1 + 1) c1 = Inr c'"
    then show ?thesis by (simp add: on_envelope_iff envelope_ok_startPhase)
  qed
qed

lemma on_envelope_doCycle:
  assumes "on_envelope c" "doCycle e c = Inr c'"
  shows "on_envelope c'"
proof (cases "m_Running c")
  case False
  with assms(2) show ?thesis by (auto simp: doCycle_def on_envelope_def split: if_splits)
next
  case True
  from assms(1) have c1: "on_envelope (c\<lparr>m_PID_Input := tc_input e\<rparr>)"
    by (simp add: on_envelope_iff envelope_ok_upd)
  from True assms(2) obtain c2 where
    c2: "c2 = c\<lparr>m_PID_Input := tc_input e\<rparr> \<or>
         profile_sample e (c\<lparr>m_PID_Input := tc_input e\<rparr>) = Inr c2"
    and c': "c' = pid_step e c2"
    by (auto simp: doCycle_def Let_def split: if_splits sum.splits)
  from c2 c1 True have "on_envelope c2"
    using on_envelope_profile_sample [of "c\<lparr>m_PID_Input := tc_input e\<rparr>" e c2] by auto
  then show ?thesis unfolding c' by (rule on_envelope_pid_step)
qed

lemma on_envelope_Start:
  assumes "on_envelope c" "Start now e c = Inr (r, c')"
  shows "on_envelope c'"
proof (cases "\<not> m_Running c \<and> m_lpPhases c \<noteq> None")
  case False
  with assms show ?thesis by (auto simp: Start_def)
next
  case True
  with assms(2) obtain c1 where
    c1: "startPhase e 0 (c\<lparr>m_ProcessStartTime := now\<rparr>) = Inr c1"
    and c': "c' = SendOvenState (c1\<lparr>m_Running := True\<rparr>)"
    by (auto simp: Start_def split: sum.splits)
  have "envelope_ok p c'" if "phase_at (m_lpPhases c') (m_CurrentPhase c') = Some p" for p
  proof -
    from that have "phase_at (m_lpPhases c1) (m_CurrentPhase c1) = Some p"
      by (simp add: c' SendOvenState_def)
    from envelope_ok_startPhase [OF c1 this] show ?thesis
      by (simp add: c' SendOvenState_def envelope_ok_upd)
  qed
  then show ?thesis by (simp add: on_envelope_iff)
qed

lemma on_envelope_do_call:
  assumes "on_envelope c" "do_call x c = Inr c'"
  shows "on_envelope c'"
proof (cases x)
  case (CallSetPhases lp n)
  with assms(2) show ?thesis by (auto simp: setPhases_def intro: on_envelope_idle)
next
  case (CallSetPIDTunings p i d)
  with assms show ?thesis by (auto simp: SetPIDTunings_def on_envelope_iff envelope_ok_upd)
next
  case (CallStart now e)
  with assms show ?thesis using on_envelope_Start [of c now e]
    by (cases "Start now e c") auto
next
  case CallStop
  with assms(2) show ?thesis
    by (auto simp: Stop_def SendOvenState_def intro: on_envelope_idle)
next
  case (CallDoCycle e)
  with assms show ?thesis by (auto intro: on_envelope_doCycle)
qed

lemma on_envelope_do_calls: "on_envelope c \<Longrightarrow> do_calls xs c = Inr c' \<Longrightarrow> on_envelope c'"
proof (induction xs arbitrary: c)
  case Nil
  then show ?case by simp
next
  case (Cons x xs)
  then show ?case
    by (auto split: sum.splits dest: on_envelope_do_call)
qed

lemma on_envelope_reachable:
  "constructed c0 \<Longrightarrow> do_calls xs c0 = Inr c \<Longrightarrow> on_envelope c"
  by (rule on_envelope_do_calls [of c0]) (auto simp: constructed_def intro: on_envelope_idle)

lemma phase_at_nonneg: "phase_at lp i = Some p \<Longrightarrow> 0 \<le> i"
  by (auto simp: phase_at_def split: option.splits if_splits)

lemma startPhase_index:
  "startPhase e i c = Inr c' \<Longrightarrow> m_CurrentPhase c' = i \<or> m_CurrentPhase c' = - 1"
  by (auto simp: startPhase_def SendOvenState_def split: if_splits option.splits)

lemma doCycle_running:
  assumes "m_Running c" "phase_at (m_lpPhases c) (m_CurrentPhase c) = Some p"
    and "doCycle e c = Inr c'"
  shows "\<exists>c2. c' = pid_step e c2 \<and>
     (if PROFILE_SAMPLING_TIME \<le> unat (millis_now e - m_ProfileSampleTime c)
      then (let c1 = envelope p (millis_now e - m_PhaseStartTime c)
                  (c\<lparr>m_PID_Input := tc_input e, m_ProfileSampleTime := millis_now e\<rparr>)
            in if m_Slope c1 = 0 \<and> phase_done p (millis_duration e) c1
               then startPhase (next_phase e) (m_CurrentPhase c + 1) c1 = Inr c2
               else c2 = c1)
      else c2 = c\<lparr>m_PID_Input := tc_input e\<rparr>)"
  using assms
  by (auto simp: doCycle_def profile_sample_def Let_def envelope_frame
      split: if_splits sum.splits)

lemma envelope_slope_indep:
  "m_Slope (envelope p t (c\<lparr>m_PID_Input := x, m_ProfileSampleTime := y\<rparr>)) = m_Slope (envelope p t c)"
  "m_PID_Setpoint (envelope p t (c\<lparr>m_PID_Input := x, m_ProfileSampleTime := y\<rparr>)) = m_PID_Setpoint (envelope p t c)"
  by (simp_all add: envelope_def Let_def)

lemma doCycle_phase_changed:
  assumes "m_Running c" "phase_at (m_lpPhases c) (m_CurrentPhase c) = Some p"
    and "doCycle e c = Inr c'"
  shows "m_CurrentPhase c' \<noteq> m_CurrentPhase c \<longleftrightarrow>
     PROFILE_SAMPLING_TIME \<le> unat (millis_now e - m_ProfileSampleTime c) \<and>
     m_Slope (envelope p (millis_now e - m_PhaseStartTime c) c) = 0 \<and>
     phase_done p (millis_duration e)
       (envelope p (millis_now e - m_PhaseStartTime c)
          (c\<lparr>m_PID_Input := tc_input e, m_ProfileSampleTime := millis_now e\<rparr>))"
proof -
  from assms(2) have nn: "0 \<le> m_CurrentPhase c" by (rule phase_at_nonneg)
  from doCycle_running [OF assms] obtain c2 where c': "c' = pid_step e c2" and
    c2: "if PROFILE_SAMPLING_TIME \<le> unat (millis_now e - m_ProfileSampleTime c)
      then (let c1 = envelope p (millis_now e - m_PhaseStartTime c)
                  (c\<lparr>m_PID_Input := tc_input e, m_ProfileSampleTime := millis_now e\<rparr>)
            in if m_Slope c1 = 0 \<and> phase_done p (millis_duration e) c1
               then startPhase (next_phase e) (m_CurrentPhase c + 1) c1 = Inr c2
               else c2 = c1)
      else c2 = c\<lparr>m_PID_Input := tc_input e\<rparr>" by blast
  show ?thesis
  proof (cases "PROFILE_SAMPLING_TIME \<le> unat (millis_now e - m_ProfileSampleTime c)")
    case False
    with c2 c' show ?thesis by (simp add: pid_step_frame)
  next
    case due: True
    define c1 where "c1 = envelope p (millis_now e - m_PhaseStartTime c)
                  (c\<lparr>m_PID_Input := tc_input e, m_ProfileSampleTime := millis_now e\<rparr>)"
    show ?thesis
    proof (cases "m_Slope c1 = 0 \<and> phase_done p (millis_duration e) c1")
      case True
      with c2 due have "startPhase (next_phase e) (m_CurrentPhase c + 1) c1 = Inr c2"
        by (simp add: c1_def Let_def)
      from startPhase_index [OF this] nn have "m_CurrentPhase c2 \<noteq> m_CurrentPhase c" by auto
      with True due show ?thesis
        by (simp add: c' pid_step_frame c1_def envelope_slope_indep)
    next
      case False
      with c2 due have "c2 = c1" by (simp add: c1_def Let_def)
      with False due show ?thesis
        by (auto simp: c' pid_step_frame c1_def envelope_slope_indep envelope_frame)
    qed
  qed
qed

lemma phase_done_spec:
  assumes "envelope_ok p c1" "m_Slope c1 = 0" "m_Running c1"
  shows "phase_done p now c1 \<longleftrightarrow>
     terminator_spec (sint (Duration p)) (m_StartTemp c1) (EndTemp p) (m_PID_Input c1)
       (unat (now - m_PhaseStartTime c1) div 1000)"
  using assms
  by (auto simp: phase_done_def terminator_spec_def envelope_ok_def getPhaseDuration_def)

text \<open>
  Claim C2. In every state reached from the constructed one in which the controller runs a
  phase, a call of \<^verbatim>\<open>doCycle\<close> leaves the phase (the phase index changes) exactly
  when a profile sample is due, the effective slope after the envelope update of this sample
  is zero, and the terminator of the specification holds: the duration is positive and the
  elapsed seconds of the phase have reached it, or the duration is zero and the measured
  temperature has crossed the end temperature in the direction of travel. A phase with a
  negative duration is never left by \<^verbatim>\<open>doCycle\<close>, and the controller keeps running.
\<close>

theorem phase_terminates_iff:
  assumes "constructed c0" and "do_calls xs c0 = Inr c" and "m_Running c"
    and "phase_at (m_lpPhases c) (m_CurrentPhase c) = Some p"
    and "doCycle e c = Inr c'"
  shows "(m_CurrentPhase c' \<noteq> m_CurrentPhase c \<longleftrightarrow>
            PROFILE_SAMPLING_TIME \<le> unat (millis_now e - m_ProfileSampleTime c) \<and>
            m_Slope (envelope p (millis_now e - m_PhaseStartTime c) c) = 0 \<and>
            terminator_spec (sint (Duration p)) (m_StartTemp c) (EndTemp p) (tc_input e)
              (unat (millis_duration e - m_PhaseStartTime c) div 1000))
         \<and> (sint (Duration p) < 0 \<longrightarrow> m_CurrentPhase c' = m_CurrentPhase c \<and> m_Running c')"
proof -
  define c1 where "c1 = envelope p (millis_now e - m_PhaseStartTime c)
                  (c\<lparr>m_PID_Input := tc_input e, m_ProfileSampleTime := millis_now e\<rparr>)"
  from on_envelope_reachable [OF assms(1,2)] assms(3,4) have "envelope_ok p c"
    by (simp add: on_envelope_iff)
  then have "envelope_ok p (c\<lparr>m_PID_Input := tc_input e\<rparr>)" by (simp add: envelope_ok_upd)
  from envelope_ok_envelope [OF this, of "millis_now e"] have ok1: "envelope_ok p c1"
    by (simp add: c1_def)
  have run1: "m_Running c1" using assms(3) by (simp add: c1_def envelope_frame)
  have s1: "m_Slope c1 = m_Slope (envelope p (millis_now e - m_PhaseStartTime c) c)"
    by (simp add: c1_def envelope_slope_indep)
  have done1: "m_Slope c1 = 0 \<Longrightarrow> phase_done p (millis_duration e) c1 \<longleftrightarrow>
     terminator_spec (sint (Duration p)) (m_StartTemp c) (EndTemp p) (tc_input e)
       (unat (millis_duration e - m_PhaseStartTime c) div 1000)"
    using phase_done_spec [OF ok1 _ run1, of "millis_duration e"]
    by (simp add: c1_def envelope_frame)
  have iff: "m_CurrentPhase c' \<noteq> m_CurrentPhase c \<longleftrightarrow>
     PROFILE_SAMPLING_TIME \<le> unat (millis_now e - m_ProfileSampleTime c) \<and>
     m_Slope c1 = 0 \<and> phase_done p (millis_duration e) c1"
    using doCycle_phase_changed [OF assms(3,4,5)] by (simp add: c1_def s1 [symmetric])
  have first: "m_CurrentPhase c' \<noteq> m_CurrentPhase c \<longleftrightarrow>
            PROFILE_SAMPLING_TIME \<le> unat (millis_now e - m_ProfileSampleTime c) \<and>
            m_Slope (envelope p (millis_now e - m_PhaseStartTime c) c) = 0 \<and>
            terminator_spec (sint (Duration p)) (m_StartTemp c) (EndTemp p) (tc_input e)
              (unat (millis_duration e - m_PhaseStartTime c) div 1000)"
    using iff done1 s1 by auto
  have second: "m_CurrentPhase c' = m_CurrentPhase c \<and> m_Running c'" if neg: "sint (Duration p) < 0"
  proof -
    from neg have nd: "\<not> phase_done p (millis_duration e) c1" by (simp add: phase_done_def)
    with iff have same: "m_CurrentPhase c' = m_CurrentPhase c" by simp
    from doCycle_running [OF assms(3,4,5)] nd assms(3) have "m_Running c'"
      by (auto simp: c1_def Let_def pid_step_frame envelope_frame split: if_splits)
    with same show ?thesis by simp
  qed
  from first second show ?thesis by blast
qed

lemma doCycle_same_phase:
  assumes "m_Running c" "phase_at (m_lpPhases c) (m_CurrentPhase c) = Some p"
    and "doCycle e c = Inr c'" and "m_CurrentPhase c' = m_CurrentPhase c"
  shows "c' = pid_step e
     (if PROFILE_SAMPLING_TIME \<le> unat (millis_now e - m_ProfileSampleTime c)
      then envelope p (millis_now e - m_PhaseStartTime c)
             (c\<lparr>m_PID_Input := tc_input e, m_ProfileSampleTime := millis_now e\<rparr>)
      else c\<lparr>m_PID_Input := tc_input e\<rparr>)"
proof -
  from assms(2) have nn: "0 \<le> m_CurrentPhase c" by (rule phase_at_nonneg)
  from doCycle_running [OF assms(1,2,3)] obtain c2 where c': "c' = pid_step e c2" and
    c2: "if PROFILE_SAMPLING_TIME \<le> unat (millis_now e - m_ProfileSampleTime c)
      then (let c1 = envelope p (millis_now e - m_PhaseStartTime c)
                  (c\<lparr>m_PID_Input := tc_input e, m_ProfileSampleTime := millis_now e\<rparr>)
            in if m_Slope c1 = 0 \<and> phase_done p (millis_duration e) c1
               then startPhase (next_phase e) (m_CurrentPhase c + 1) c1 = Inr c2
               else c2 = c1)
      else c2 = c\<lparr>m_PID_Input := tc_input e\<rparr>" by blast
  have "\<not> startPhase (next_phase e) (m_CurrentPhase c + 1) c1 = Inr c2" for c1
  proof
    assume "startPhase (next_phase e) (m_CurrentPhase c + 1) c1 = Inr c2"
    from startPhase_index [OF this] nn assms(4) show False
      by (auto simp: c' pid_step_frame)
  qed
  with c2 show ?thesis unfolding c'
    by (auto simp: Let_def split: if_splits)
qed

lemma envelope_values:
  "m_PID_Setpoint (envelope p t c) =
     (if m_Slope c \<noteq> 0
      then clamp_toward (m_StartTemp c) (EndTemp p)
             (m_StartTemp c + m_Slope c * (real (unat t) / 1000))
      else m_PID_Setpoint c)"
  "m_Slope (envelope p t c) =
     (if m_Slope c \<noteq> 0 \<and>
         clamp_toward (m_StartTemp c) (EndTemp p)
           (m_StartTemp c + m_Slope c * (real (unat t) / 1000)) \<noteq>
         m_StartTemp c + m_Slope c * (real (unat t) / 1000)
      then 0 else m_Slope c)"
  by (auto simp: envelope_def clamp_toward_def Let_def)

lemma ramp_bounds:
  fixes s m e :: real
  assumes "sgn m = sgn (e - s)" "0 \<le> t"
  shows "min s e \<le> clamp_toward s e (s + m * t)" "clamp_toward s e (s + m * t) \<le> max s e"
proof -
  consider "s < e" | "s > e" | "s = e" by linarith
  then have "min s e \<le> clamp_toward s e (s + m * t) \<and> clamp_toward s e (s + m * t) \<le> max s e"
  proof cases
    case 1
    with assms have "0 < m" by (simp add: sgn_if split: if_splits)
    with assms(2) have "0 \<le> m * t" by simp
    with 1 show ?thesis by (simp add: clamp_toward_def)
  next
    case 2
    with assms have "m < 0" by (simp add: sgn_if split: if_splits)
    with assms(2) have "m * t \<le> 0" by (simp add: mult_nonpos_nonneg)
    with 2 show ?thesis by (simp add: clamp_toward_def)
  next
    case 3
    with assms have "m = 0" by (simp add: sgn_if split: if_splits)
    with 3 show ?thesis by (simp add: clamp_toward_def)
  qed
  then show "min s e \<le> clamp_toward s e (s + m * t)" "clamp_toward s e (s + m * t) \<le> max s e"
    by simp_all
qed

lemma ramp_monotone:
  fixes s m e :: real
  assumes "sgn m = sgn (e - s)" "0 \<le> t0" "t0 \<le> t1"
    and "s < e \<longrightarrow> s + m * t0 \<le> e" and "s > e \<longrightarrow> s + m * t0 \<ge> e"
  shows "(s \<le> e \<longrightarrow> s + m * t0 \<le> clamp_toward s e (s + m * t1)) \<and>
         (e \<le> s \<longrightarrow> clamp_toward s e (s + m * t1) \<le> s + m * t0)"
proof -
  consider "s < e" | "s > e" | "s = e" by linarith
  then show ?thesis
  proof cases
    case 1
    with assms have "0 < m" by (simp add: sgn_if split: if_splits)
    with assms(3) have "m * t0 \<le> m * t1" by simp
    with 1 assms(4) show ?thesis by (simp add: clamp_toward_def)
  next
    case 2
    with assms have "m < 0" by (simp add: sgn_if split: if_splits)
    with assms(3) have "m * t1 \<le> m * t0" by (simp add: mult_left_mono_neg)
    with 2 assms(5) show ?thesis by (simp add: clamp_toward_def)
  next
    case 3
    with assms have "m = 0" by (simp add: sgn_if split: if_splits)
    with 3 show ?thesis by (simp add: clamp_toward_def)
  qed
qed

text \<open>
  Claim C1, as amended. In every state reached from the constructed one in which the
  controller runs a phase, a call of \<^verbatim>\<open>doCycle\<close> that stays in the phase sets the
  set point, when a profile sample is due and the effective slope is not zero, to
  \<open>start_temp + slope * elapsed seconds\<close> clamped at the end temperature in the direction
  from the start to the end temperature, and zeroes the effective slope exactly when the
  clamp cut the value; otherwise set point and slope are unchanged. If the effective slope
  is zero or has the sign of \<open>end_temp - start_temp\<close>, the new set point lies between
  the minimum and the maximum of start and end temperature and, when the clock has not
  wrapped around since the previous sample, it has moved in the direction of the end
  temperature.
\<close>

theorem setpoint_follows_envelope:
  assumes "constructed c0" and "do_calls xs c0 = Inr c" and "m_Running c"
    and "phase_at (m_lpPhases c) (m_CurrentPhase c) = Some p"
    and "doCycle e c = Inr c'" and "m_CurrentPhase c' = m_CurrentPhase c"
  shows "m_PID_Setpoint c' =
           (if PROFILE_SAMPLING_TIME \<le> unat (millis_now e - m_ProfileSampleTime c) \<and> m_Slope c \<noteq> 0
            then clamp_toward (m_StartTemp c) (EndTemp p)
                   (m_StartTemp c + m_Slope c * (real (unat (millis_now e - m_PhaseStartTime c)) / 1000))
            else m_PID_Setpoint c)
         \<and> m_Slope c' =
           (if PROFILE_SAMPLING_TIME \<le> unat (millis_now e - m_ProfileSampleTime c) \<and> m_Slope c \<noteq> 0 \<and>
               clamp_toward (m_StartTemp c) (EndTemp p)
                 (m_StartTemp c + m_Slope c * (real (unat (millis_now e - m_PhaseStartTime c)) / 1000)) \<noteq>
               m_StartTemp c + m_Slope c * (real (unat (millis_now e - m_PhaseStartTime c)) / 1000)
            then 0 else m_Slope c)
         \<and> (m_Slope c = 0 \<or> sgn (m_Slope c) = sgn (EndTemp p - m_StartTemp c) \<longrightarrow>
              min (m_StartTemp c) (EndTemp p) \<le> m_PID_Setpoint c' \<and>
              m_PID_Setpoint c' \<le> max (m_StartTemp c) (EndTemp p) \<and>
              (unat (m_ProfileSampleTime c - m_PhaseStartTime c) \<le> unat (millis_now e - m_PhaseStartTime c) \<longrightarrow>
                 (m_StartTemp c \<le> EndTemp p \<longrightarrow> m_PID_Setpoint c \<le> m_PID_Setpoint c') \<and>
                 (EndTemp p \<le> m_StartTemp c \<longrightarrow> m_PID_Setpoint c' \<le> m_PID_Setpoint c)))"
proof -
  let ?due = "PROFILE_SAMPLING_TIME \<le> unat (millis_now e - m_ProfileSampleTime c)"
  let ?t0 = "real (unat (m_ProfileSampleTime c - m_PhaseStartTime c)) / 1000"
  let ?t1 = "real (unat (millis_now e - m_PhaseStartTime c)) / 1000"
  let ?s = "m_StartTemp c" and ?e = "EndTemp p" and ?m = "m_Slope c"
  from on_envelope_reachable [OF assms(1,2)] assms(3,4) have ok: "envelope_ok p c"
    by (simp add: on_envelope_iff)
  note c' = doCycle_same_phase [OF assms(3,4,5,6)]
  have sp: "m_PID_Setpoint c' =
      (if ?due \<and> ?m \<noteq> 0 then clamp_toward ?s ?e (?s + ?m * ?t1) else m_PID_Setpoint c)"
    by (subst c') (simp add: pid_step_frame envelope_values)
  have sl: "m_Slope c' =
      (if ?due \<and> ?m \<noteq> 0 \<and> clamp_toward ?s ?e (?s + ?m * ?t1) \<noteq> ?s + ?m * ?t1
       then 0 else ?m)"
    by (subst c') (simp add: pid_step_frame envelope_values)
  have bounds: "min ?s ?e \<le> m_PID_Setpoint c' \<and> m_PID_Setpoint c' \<le> max ?s ?e \<and>
      (?t0 \<le> ?t1 \<longrightarrow>
         (?s \<le> ?e \<longrightarrow> m_PID_Setpoint c \<le> m_PID_Setpoint c') \<and>
         (?e \<le> ?s \<longrightarrow> m_PID_Setpoint c' \<le> m_PID_Setpoint c))"
    if toward: "?m = 0 \<or> sgn ?m = sgn (?e - ?s)"
  proof (cases "?m = 0")
    case True
    with ok have "m_PID_Setpoint c = ?e" by (simp add: envelope_ok_def)
    with True sp show ?thesis by simp
  next
    case False
    with toward have sg: "sgn ?m = sgn (?e - ?s)" by simp
    from False ok have cur: "m_PID_Setpoint c = ?s + ?m * ?t0"
      and le: "?s < ?e \<longrightarrow> ?s + ?m * ?t0 \<le> ?e" and ge: "?s > ?e \<longrightarrow> ?s + ?m * ?t0 \<ge> ?e"
      by (auto simp: envelope_ok_def)
    have t0: "0 \<le> ?t0" and t1: "0 \<le> ?t1" by (simp_all del: of_nat_unat)
    show ?thesis
    proof (cases ?due)
      case True
      with False sp have sp': "m_PID_Setpoint c' = clamp_toward ?s ?e (?s + ?m * ?t1)" by simp
      from ramp_bounds [OF sg t1] ramp_monotone [OF sg t0 _ le ge, of ?t1]
      show ?thesis unfolding sp' cur by blast
    next
      case nd: False
      with sp have sp': "m_PID_Setpoint c' = ?s + ?m * ?t0" by (simp add: cur)
      have "clamp_toward ?s ?e (?s + ?m * ?t0) = ?s + ?m * ?t0"
        using le ge by (auto simp: clamp_toward_def)
      with ramp_bounds [OF sg t0] show ?thesis unfolding sp' cur by simp
    qed
  qed
  have conv: "unat (m_ProfileSampleTime c - m_PhaseStartTime c) \<le> unat (millis_now e - m_PhaseStartTime c)
     \<Longrightarrow> ?t0 \<le> ?t1" by (simp del: of_nat_unat)
  from sp sl bounds conv show ?thesis by blast
qed

lemma ascent_started_eq: "do_calls ascent_calls idle_controller = Inr ascent_started"
  by (simp add: controller_defs example_defs)

lemma ascent_started_val:
  "ascent_started = \<lparr>m_Running = True, m_PID = \<lparr>inAuto = True, outMin = 0, outMax = 100\<rparr>,
      m_lpPhases = Some [ramp_phase 100 2 0], m_PhasesCount = 1, m_CurrentPhase = 0,
      m_PID_Setpoint = 25, m_PID_Input = 0, m_PID_Output = 0, m_Slope = 2,
      m_PhaseStartTime = 0, m_ProcessStartTime = 0, m_ProfileSampleTime = 0,
      m_TemperatureSampleTime = 0, m_PIDTunings = \<lparr>kp = 300, ki = 0.05, kd = 250\<rparr>,
      m_StartTemp = 25,
      effects = [HeaterDuty 0, OvenEvent False, HeaterDuty 0, PhaseEvent (ramp_phase 100 2 0),
                 OvenEvent True]\<rparr>"
  by (simp add: controller_defs example_defs)

lemma ascent_cycle:
  "doCycle (sample_env 1000 27 150) ascent_started =
     Inr (ascent_started\<lparr>m_PID_Input := 27, m_ProfileSampleTime := 1000, m_PID_Setpoint := 27,
        m_PID_Output := 100,
        effects := effects ascent_started @ [HeaterDuty 100, PidEvent 1000 27 2 27 100]\<rparr>)"
  by (simp add: ascent_started_val controller_defs sample_env_def ramp_phase_def)

theorem setpoint_follows_envelope_witness:
  "constructed idle_controller \<and>
   do_calls ascent_calls idle_controller = Inr ascent_started \<and>
   m_Running ascent_started \<and>
   phase_at (m_lpPhases ascent_started) (m_CurrentPhase ascent_started) = Some (ramp_phase 100 2 0) \<and>
   m_CurrentPhase (projr (doCycle (sample_env 1000 27 150) ascent_started)) = 0 \<and>
   m_PID_Setpoint (projr (doCycle (sample_env 1000 27 150) ascent_started)) = 27 \<and>
   m_Slope (projr (doCycle (sample_env 1000 27 150) ascent_started)) = 2 \<and>
   min 25 100 \<le> m_PID_Setpoint (projr (doCycle (sample_env 1000 27 150) ascent_started)) \<and>
   m_PID_Setpoint (projr (doCycle (sample_env 1000 27 150) ascent_started)) \<le> max 25 100 \<and>
   m_PID_Setpoint ascent_started \<le> m_PID_Setpoint (projr (doCycle (sample_env 1000 27 150) ascent_started))"
proof -
  let ?c' = "projr (doCycle (sample_env 1000 27 150) ascent_started)"
  have a1: "constructed idle_controller"
    by (simp add: constructed_def idle_controller_def)
  note a2 = ascent_started_eq
  have a3: "m_Running ascent_started" by (simp add: ascent_started_val)
  have a4: "phase_at (m_lpPhases ascent_started) (m_CurrentPhase ascent_started) =
      Some (ramp_phase 100 2 0)"
    by (simp add: ascent_started_val phase_at_def)
  have a5: "doCycle (sample_env 1000 27 150) ascent_started = Inr ?c'"
    by (simp add: ascent_cycle)
  have a6: "m_CurrentPhase ?c' = m_CurrentPhase ascent_started"
    by (simp add: ascent_cycle)
  have vals: "m_StartTemp ascent_started = 25" "m_Slope ascent_started = 2"
    "m_PhaseStartTime ascent_started = 0" "m_ProfileSampleTime ascent_started = 0"
    "m_PID_Setpoint ascent_started = 25" "m_CurrentPhase ascent_started = 0"
    by (simp_all add: ascent_started_val)
  from setpoint_follows_envelope [OF a1 a2 a3 a4 a5 a6] a1 a2 a3 a4 a6
  show ?thesis
    by (simp add: vals sample_env_def ramp_phase_def clamp_toward_def
        PROFILE_SAMPLING_TIME_def)
qed

lemma descent_started_eq: "do_calls descent_calls idle_controller = Inr descent_started"
  by (simp add: controller_defs example_defs)

lemma descent_started_val:
  "descent_started = \<lparr>m_Running = True, m_PID = \<lparr>inAuto = True, outMin = 0, outMax = 100\<rparr>,
      m_lpPhases = Some [ramp_phase 50 2 0], m_PhasesCount = 1, m_CurrentPhase = 0,
      m_PID_Setpoint = 100, m_PID_Input = 0, m_PID_Output = 0, m_Slope = 2,
      m_PhaseStartTime = 0, m_ProcessStartTime = 0, m_ProfileSampleTime = 0,
      m_TemperatureSampleTime = 0, m_PIDTunings = \<lparr>kp = 300, ki = 0.05, kd = 250\<rparr>,
      m_StartTemp = 100,
      effects = [HeaterDuty 0, OvenEvent False, HeaterDuty 0, PhaseEvent (ramp_phase 50 2 0),
                 OvenEvent True]\<rparr>"
  by (simp add: controller_defs example_defs)

lemma descent_cycle:
  "doCycle (sample_env 1000 99 0) descent_started =
     Inr (descent_started\<lparr>m_PID_Input := 99, m_ProfileSampleTime := 1000, m_PID_Setpoint := 102,
        m_PID_Output := 0,
        effects := effects descent_started @ [HeaterDuty 0, PidEvent 1000 99 2 102 0]\<rparr>)"
  by (simp add: descent_started_val controller_defs sample_env_def ramp_phase_def)

text \<open>
  Claim C1 as stated fails. A phase with end temperature 50 and the configured slope 2 is
  started at 100 degrees: the effective slope is the configured one, and one second later
  the set point is 102, above both the start and the end temperature, while the phase is
  still running.
\<close>

theorem setpoint_leaves_bounds:
  "do_calls descent_calls idle_controller = Inr descent_started \<and>
   m_Running descent_started \<and>
   phase_at (m_lpPhases descent_started) (m_CurrentPhase descent_started) = Some (ramp_phase 50 2 0) \<and>
   m_StartTemp descent_started = 100 \<and>
   m_Running (projr (doCycle (sample_env 1000 99 0) descent_started)) \<and>
   m_CurrentPhase (projr (doCycle (sample_env 1000 99 0) descent_started)) =
     m_CurrentPhase descent_started \<and>
   \<not> m_PID_Setpoint (projr (doCycle (sample_env 1000 99 0) descent_started))
       \<le> max (m_StartTemp descent_started) (EndTemp (ramp_phase 50 2 0))"
  by (simp add: descent_started_eq descent_cycle)
     (simp add: descent_started_val phase_at_def ramp_phase_def)

lemma ascent_last_cycle:
  "doCycle (sample_env 40000 101 150) ascent_started =
     Inr (ascent_started\<lparr>m_PID_Input := 101, m_ProfileSampleTime := 40000, m_PID_Setpoint := 100,
        m_Slope := 0, m_Running := False, m_CurrentPhase := - 1,
        m_PID_Output := 100,
        effects := effects ascent_started @ [OvenEvent False, HeaterDuty 100, PidEvent 0 101 0 100 100]\<rparr>)"
  by (simp add: ascent_started_val controller_defs sample_env_def ramp_phase_def)

text \<open>
  Claim C2 on an example: 40 seconds into the ascent to 100 degrees the ramp is cut at the
  end temperature, the sensor reads 101 degrees, and the phase is left.
\<close>

theorem phase_terminates_iff_witness:
  "constructed idle_controller \<and>
   do_calls ascent_calls idle_controller = Inr ascent_started \<and>
   m_Running ascent_started \<and>
   phase_at (m_lpPhases ascent_started) (m_CurrentPhase ascent_started) = Some (ramp_phase 100 2 0) \<and>
   m_CurrentPhase (projr (doCycle (sample_env 40000 101 150) ascent_started)) \<noteq>
     m_CurrentPhase ascent_started \<and>
   m_Slope (envelope (ramp_phase 100 2 0) 40000 ascent_started) = 0 \<and>
   terminator_spec 0 25 100 101 40"
proof -
  let ?c' = "projr (doCycle (sample_env 40000 101 150) ascent_started)"
  have a1: "constructed idle_controller"
    by (simp add: constructed_def idle_controller_def)
  note a2 = ascent_started_eq
  have a3: "m_Running ascent_started" by (simp add: ascent_started_val)
  have a4: "phase_at (m_lpPhases ascent_started) (m_CurrentPhase ascent_started) =
      Some (ramp_phase 100 2 0)"
    by (simp add: ascent_started_val phase_at_def)
  have a5: "doCycle (sample_env 40000 101 150) ascent_started = Inr ?c'"
    by (simp add: ascent_last_cycle)
  have vals: "m_StartTemp ascent_started = 25" "m_Slope ascent_started = 2"
    "m_PhaseStartTime ascent_started = 0" "m_ProfileSampleTime ascent_started = 0"
    "m_PID_Setpoint ascent_started = 25" "m_CurrentPhase ascent_started = 0"
    by (simp_all add: ascent_started_val)
  have cur': "m_CurrentPhase ?c' = - 1" by (simp add: ascent_last_cycle)
  have sl: "m_Slope (envelope (ramp_phase 100 2 0) 40000 ascent_started) = 0"
    by (simp add: envelope_def ascent_started_val ramp_phase_def)
  have ts: "terminator_spec 0 25 100 101 40" by (simp add: terminator_spec_def)
  from phase_terminates_iff [OF a1 a2 a3 a4 a5] a1 a2 a3 a4
  show ?thesis
    by (simp add: vals cur' sl ts)
qed

text \<open>
  Claim C4 on an example: a PID sum of 150 is sent to the heater as 100.
\<close>

theorem duty_in_range_witness:
  "constructed idle_controller \<and>
   do_calls (ascent_calls @ [CallDoCycle (sample_env 1000 27 150)]) idle_controller =
     Inr (projr (doCycle (sample_env 1000 27 150) ascent_started)) \<and>
   duties (effects (projr (doCycle (sample_env 1000 27 150) ascent_started))) = [0, 0, 100] \<and>
   list_all (\<lambda>d. 0 \<le> d \<and> d \<le> 100)
     (duties (effects (projr (doCycle (sample_env 1000 27 150) ascent_started))))"
proof -
  have a1: "constructed idle_controller"
    by (simp add: constructed_def idle_controller_def)
  have a2: "do_calls (ascent_calls @ [CallDoCycle (sample_env 1000 27 150)]) idle_controller =
     Inr (projr (doCycle (sample_env 1000 27 150) ascent_started))"
    by (simp add: controller_defs example_defs)
  have a3: "duties (effects (projr (doCycle (sample_env 1000 27 150) ascent_started))) = [0, 0, 100]"
    by (simp add: ascent_cycle) (simp add: ascent_started_val)
  from duty_in_range [OF a1 a2] a1 a2 a3 show ?thesis by (simp add: list_all_iff)
qed

text \<open>
  Claim C3, as amended. \<^verbatim>\<open>startPhase\<close> on a phase of the list captures the start
  temperature from the sensor, makes it the set point, and sets the effective slope to the
  configured slope, unchanged, if that is positive; otherwise to
  \<open>(end_temp - start_temp) / duration\<close> if the duration is positive; otherwise to 100 if
  the end temperature is above the start temperature and to -100 if it is not.
\<close>

theorem startPhase_effective_slope:
  assumes "0 \<le> i" and "i < m_PhasesCount c" and "phase_at (m_lpPhases c) i = Some p"
  shows "\<exists>c'. startPhase e i c = Inr c' \<and>
           m_StartTemp c' = tc_start e \<and> m_PID_Setpoint c' = tc_start e \<and>
           m_Slope c' =
             (if Slope p > 0 then Slope p
              else if sint (Duration p) > 0
                then (EndTemp p - tc_start e) / real_of_int (sint (Duration p))
              else if EndTemp p > tc_start e then 100 else - 100)"
  using assms
  by (simp add: startPhase_def phase_slope_def MAXIMUM_TEMPERATURE_SLOPE_def)

text \<open>
  Claim C3, as amended, on an example: 100 degrees in 50 seconds give 2 degrees per second.
\<close>

theorem startPhase_effective_slope_witness:
  "(0::int) \<le> 0 \<and> 0 < m_PhasesCount (setPhases (Some [ramp_phase 150 0 50]) 1 idle_controller) \<and>
   phase_at (m_lpPhases (setPhases (Some [ramp_phase 150 0 50]) 1 idle_controller)) 0 =
     Some (ramp_phase 150 0 50) \<and>
   m_Slope (projr (startPhase \<lparr>tc_start = 50, millis_start = 0\<rparr> 0
      (setPhases (Some [ramp_phase 150 0 50]) 1 idle_controller))) = 2 \<and>
   m_PID_Setpoint (projr (startPhase \<lparr>tc_start = 50, millis_start = 0\<rparr> 0
      (setPhases (Some [ramp_phase 150 0 50]) 1 idle_controller))) = 50"
proof -
  let ?c = "setPhases (Some [ramp_phase 150 0 50]) 1 idle_controller"
  have a1: "(0::int) \<le> 0" by simp
  have a2: "0 < m_PhasesCount ?c" by (simp add: setPhases_def)
  have a3: "phase_at (m_lpPhases ?c) 0 = Some (ramp_phase 150 0 50)"
    by (simp add: setPhases_def phase_at_def setHeaterDuty_def)
  from startPhase_effective_slope [OF a1 a2 a3, of "\<lparr>tc_start = 50, millis_start = 0\<rparr>"]
    a1 a2 a3
  show ?thesis by (auto simp: ramp_phase_def)
qed

text \<open>
  Claim C3 as stated fails. For a phase with the positive slope 2 and the end temperature
  50 started at 100 degrees the effective slope is 2: no sign is copied, and the envelope
  moves away from the end temperature.
\<close>

theorem positive_slope_on_descent:
  "phase_at (m_lpPhases (setPhases (Some [ramp_phase 50 2 0]) 1 idle_controller)) 0 =
     Some (ramp_phase 50 2 0) \<and>
   Slope (ramp_phase 50 2 0) > 0 \<and>
   m_Slope (projr (startPhase \<lparr>tc_start = 100, millis_start = 0\<rparr> 0
      (setPhases (Some [ramp_phase 50 2 0]) 1 idle_controller))) = 2 \<and>
   \<not> 0 \<le> m_Slope (projr (startPhase \<lparr>tc_start = 100, millis_start = 0\<rparr> 0
             (setPhases (Some [ramp_phase 50 2 0]) 1 idle_controller))) *
          (EndTemp (ramp_phase 50 2 0) -
           m_StartTemp (projr (startPhase \<lparr>tc_start = 100, millis_start = 0\<rparr> 0
             (setPhases (Some [ramp_phase 50 2 0]) 1 idle_controller))))"
  by (simp add: controller_defs example_defs)

text \<open>
  Claim C5. From any state, when \<^verbatim>\<open>Stop\<close> returns the PID is in manual mode, the
  running flag is cleared, and a heater duty of 0 followed by the event \<^verbatim>\<open>oven[on=0]\<close>
  has been sent. \<^verbatim>\<open>setPhases\<close> with a null phase list does the same, sends the duty 0 once
  more and leaves no phase list.
\<close>

theorem Stop_effect:
  "inAuto (m_PID (Stop c)) = False \<and> m_Running (Stop c) = False \<and>
   effects (Stop c) = effects c @ [HeaterDuty 0, OvenEvent False] \<and>
   inAuto (m_PID (setPhases None 0 c)) = False \<and> m_Running (setPhases None 0 c) = False \<and>
   effects (setPhases None 0 c) = effects c @ [HeaterDuty 0, OvenEvent False, HeaterDuty 0] \<and>
   m_lpPhases (setPhases None 0 c) = None"
  by (simp add: setPhases_def Stop_def SendOvenState_def setHeaterDuty_def PID_SetMode_def)

text \<open>
  Claim C10. \<^verbatim>\<open>Start\<close> on a running controller returns true and changes nothing: no
  time stamp, no phase, and nothing is sent.
\<close>

theorem Start_while_running: "m_Running c \<Longrightarrow> Start now e c = Inr (True, c)"
  by (simp add: Start_def)

text \<open>
  Claim C10 on an example.
\<close>

theorem Start_while_running_witness:
  "m_Running ascent_started \<and>
   Start 5000 \<lparr>tc_start = 30, millis_start = 5000\<rparr> ascent_started = Inr (True, ascent_started)"
proof -
  have a: "m_Running ascent_started" by (simp add: ascent_started_val)
  from Start_while_running [OF a] a show ?thesis by simp
qed

section \<open>Properties of the store and of the commands\<close>

lemma byte_of_nat: "n < 256 \<Longrightarrow> unat (of_nat n :: byte) = n"
  by (simp add: unat_of_nat)

lemma bytes_double_inverse: "bytes_double (double_bytes w @ rest) = w"
proof -
  define n where "n = unat w"
  define n1 where "n1 = n div 256"
  define n2 where "n2 = n1 div 256"
  define n3 where "n3 = n2 div 256"
  have "n < 256 * (256 * (256 * 256))"
    unfolding n_def using unsigned_less [of w, where ?'a = nat] by simp
  then have "n1 < 256 * (256 * 256)" unfolding n1_def
    by (simp only: less_mult_imp_div_less mult.commute)
  then have "n2 < 256 * 256" unfolding n2_def
    by (simp only: less_mult_imp_div_less mult.commute)
  then have d: "n3 < 256" unfolding n3_def
    by (simp only: less_mult_imp_div_less mult.commute)
  have b0: "unat (of_nat (n mod 256) :: byte) = n mod 256"
    and b1: "unat (of_nat (n1 mod 256) :: byte) = n1 mod 256"
    and b2: "unat (of_nat (n2 mod 256) :: byte) = n2 mod 256"
    and b3: "unat (of_nat n3 :: byte) = n3"
    using d by (simp_all add: byte_of_nat)
  have "bytes_double (double_bytes w @ rest) =
      of_nat (n mod 256 + 256 * (n1 mod 256 + 256 * (n2 mod 256 + 256 * n3)))"
    unfolding double_bytes_def n_def [symmetric] n1_def [symmetric]
      n2_def [symmetric] n3_def [symmetric]
    by (simp only: append_Cons bytes_double.simps b0 b1 b2 b3)
  also have "n2 mod 256 + 256 * n3 = n2" unfolding n3_def by simp
  also have "n1 mod 256 + 256 * n2 = n1" unfolding n2_def by simp
  also have "n mod 256 + 256 * n1 = n" unfolding n1_def by simp
  finally show ?thesis by (simp add: n_def)
qed


lemma bytes_int_inverse: "bytes_int (int_bytes w @ rest) = w"
proof -
  define n where "n = unat w"
  have "n < 256 * 256" unfolding n_def using unsigned_less [of w, where ?'a = nat] by simp
  then have d: "n div 256 < 256"
    by (simp only: less_mult_imp_div_less mult.commute)
  have b0: "unat (of_nat (n mod 256) :: byte) = n mod 256"
    and b1: "unat (of_nat (n div 256) :: byte) = n div 256"
    using d by (simp_all add: byte_of_nat)
  have "bytes_int (int_bytes w @ rest) = of_nat (n mod 256 + 256 * (n div 256))"
    unfolding int_bytes_def n_def [symmetric]
    by (simp only: append_Cons bytes_int.simps b0 b1)
  also have "n mod 256 + 256 * (n div 256) = n" by simp
  finally show ?thesis by (simp add: n_def)
qed

lemma sizes: "sizeof_Header = 22" "sizeof_Phase = 21" "PROFILE_NAME_LENGTH = 20"
  "MAX_PHASENAME_LEN = 11" "EEPROM_APPDATA_OFFSET = 9"
  by (simp_all add: sizeof_Header_def sizeof_Phase_def PROFILE_NAME_LENGTH_def
      MAX_PHASENAME_LEN_def EEPROM_APPDATA_OFFSET_def EEPROM_SIGNATURE_OFFSET_def
      EEPROM_SIGNATURE_LENGTH_def)

lemma length_char_array: "length (char_array n bs) = n"
  by (simp add: char_array_def)

lemma char_array_id: "length bs = n \<Longrightarrow> char_array n bs = bs"
  by (simp add: char_array_def)

lemma length_int_bytes: "length (int_bytes w) = 2"
  by (simp add: int_bytes_def)

lemma length_double_bytes: "length (double_bytes w) = 4"
  by (simp add: double_bytes_def)

lemma length_header_bytes: "length (header_bytes h) = 22"
  by (simp add: header_bytes_def length_char_array length_int_bytes sizes)

lemma length_phase_bytes: "length (phase_bytes p) = 21"
  by (simp add: phase_bytes_def length_char_array length_int_bytes length_double_bytes sizes)

lemma bytes_header_inverse:
  "length (ProfileName h) = 20 \<Longrightarrow> bytes_header (header_bytes h) = h"
  using bytes_int_inverse [of "PhasesCount h" "[]"]
  by (simp add: bytes_header_def header_bytes_def char_array_id sizes)

lemma bytes_phase_inverse:
  "length (Name p) = 11 \<Longrightarrow> bytes_phase (phase_bytes p) = p"
  using bytes_int_inverse [of "Duration p" "[]"]
    bytes_double_inverse [of "EndTemp p" "double_bytes (Slope p) @ int_bytes (Duration p)"]
    bytes_double_inverse [of "Slope p" "int_bytes (Duration p)"]
  by (simp add: bytes_phase_def phase_bytes_def char_array_id sizes length_double_bytes)

lemma as_int_small: "n < 32768 \<Longrightarrow> as_int n = int n"
proof -
  assume "n < 32768"
  then have "signed_take_bit 15 (int n) = int n"
    by (intro signed_take_bit_int_eq_self) simp_all
  moreover have "(word_of_nat n :: 16 word) = word_of_int (int n)" by simp
  ultimately show ?thesis
    by (simp only: as_int_def sint_sbintrunc') simp
qed

lemma length_phases_bytes: "length (concat (map phase_bytes ps)) = 21 * length ps"
  by (induction ps) (simp_all add: length_phase_bytes)

lemma valid_profileD:
  assumes "valid_profile p"
  obtains phs where "lpPhases p = Some phs" "length phs = unat (PhasesCount (Header p))"
    "0 < length phs" "list_all (\<lambda>ph. length (Name ph) = 11) phs"
    "length (ProfileName (Header p)) = 20" "hd (ProfileName (Header p)) \<noteq> 0"
  using assms by (auto simp: valid_profile_def sizes split: option.splits)

lemma profile_bytes_eq:
  "lpPhases p = Some phs \<Longrightarrow> profile_bytes p = header_bytes (Header p) @ concat (map phase_bytes phs)"
  by (simp add: profile_bytes_def)

lemma length_profile_bytes: "valid_profile p \<Longrightarrow> length (profile_bytes p) = profile_size p"
  by (erule valid_profileD)
     (simp add: profile_bytes_eq length_header_bytes length_phases_bytes profile_size_def sizes)

lemma profile_size_ge: "valid_profile p \<Longrightarrow> 43 \<le> profile_size p"
  by (erule valid_profileD) (simp add: profile_size_def sizes)

lemma scan_limit_eq: "22 \<le> length ee \<Longrightarrow> length ee < 65536 \<Longrightarrow> scan_limit ee = length ee - 22"
proof -
  assume a: "22 \<le> length ee" and b: "length ee < 65536"
  define k where "k = length ee - 22"
  from a have n: "length ee = k + 22" by (simp add: k_def)
  from b n have k: "k < 65536" by simp
  have "scan_limit ee = (k + 65536) mod 65536"
    using b by (simp add: scan_limit_def sizes n)
  also have "\<dots> = k" using k by simp
  finally show ?thesis by (simp add: k_def)
qed

lemma drop_length_le: "drop off ee = bs @ rest \<Longrightarrow> bs \<noteq> [] \<Longrightarrow> off + length bs + length rest = length ee"
proof -
  assume a: "drop off ee = bs @ rest" and b: "bs \<noteq> []"
  from a have "length (drop off ee) = length bs + length rest" by simp
  moreover from a b have "off < length ee" by (cases "off < length ee") auto
  ultimately show ?thesis by simp
qed

lemma EEPROM_get_at:
  "drop off ee = bs @ rest \<Longrightarrow> bs \<noteq> [] \<Longrightarrow> EEPROM_get ee off (length bs) = Inr bs"
  using drop_length_le [of off ee bs rest] by (simp add: EEPROM_get_def)

lemma drop_past: "drop off ee = bs @ rest \<Longrightarrow> drop (off + length bs) ee = rest"
  by (metis add.commute append_eq_conv_conj drop_drop)

text \<open>One record of the catalog at an offset.\<close>

lemma record_at:
  assumes d: "drop off ee = profile_bytes p @ rest" and v: "valid_profile p"
    and l: "length ee < 32768"
  shows "off < scan_limit ee"
    and "EEPROM_get ee off sizeof_Header = Inr (header_bytes (Header p) )"
    and "bytes_header (header_bytes (Header p)) = Header p"
    and "next_offset off (Header p) = off + profile_size p"
    and "drop (off + profile_size p) ee = rest"
    and "off + profile_size p + length rest = length ee"
proof -
  from v obtain phs where phs: "lpPhases p = Some phs" "length phs = unat (PhasesCount (Header p))"
    "0 < length phs" and nm: "length (ProfileName (Header p)) = 20"
    by (rule valid_profileD)
  have len: "length (profile_bytes p) = profile_size p" using v by (rule length_profile_bytes)
  have ge: "43 \<le> profile_size p" using v by (rule profile_size_ge)
  have ne: "profile_bytes p \<noteq> []" using len ge by auto
  from drop_length_le [OF d ne] len show tot: "off + profile_size p + length rest = length ee"
    by simp
  with ge l show "off < scan_limit ee" by (simp add: scan_limit_eq)
  have "drop off ee = header_bytes (Header p) @ (concat (map phase_bytes phs) @ rest)"
    using d phs(1) by (simp add: profile_bytes_eq)
  from EEPROM_get_at [OF this] show "EEPROM_get ee off sizeof_Header = Inr (header_bytes (Header p))"
    by (simp add: length_header_bytes sizes) (metis length_header_bytes length_0_conv zero_neq_numeral)
  from nm show "bytes_header (header_bytes (Header p)) = Header p" by (rule bytes_header_inverse)
  from tot l show "next_offset off (Header p) = off + profile_size p"
    by (simp add: next_offset_def profile_size_def)
  from drop_past [OF d] len show "drop (off + profile_size p) ee = rest" by simp
qed

lemma count_step:
  assumes "drop off ee = profile_bytes p @ rest" "valid_profile p" "length ee < 32768"
  shows "GetProfilesCount_loop ee off c = GetProfilesCount_loop ee (off + profile_size p) (c + 1)"
  using record_at(1-4) [OF assms] valid_profileD [OF assms(2)]
  by (subst GetProfilesCount_loop.simps) auto

lemma find_step:
  assumes "drop off ee = profile_bytes p @ rest" "valid_profile p" "length ee < 32768"
  shows "FindFreeEEPROMStart_loop ee off = FindFreeEEPROMStart_loop ee (off + profile_size p)"
  using record_at(1-4) [OF assms] valid_profileD [OF assms(2)]
  by (subst FindFreeEEPROMStart_loop.simps) auto

lemma load_step:
  assumes "drop off ee = profile_bytes p @ rest" "valid_profile p" "length ee < 32768"
  shows "LoadProfileHeader_loop ee off i h0 =
     (if i = 0 then Some (Inr (as_int off, Header p))
      else LoadProfileHeader_loop ee (off + profile_size p) (i - 1) (Header p))"
  using record_at(1-4) [OF assms] valid_profileD [OF assms(2)]
  by (subst LoadProfileHeader_loop.simps) auto

lemma total_size_simps [simp]:
  "total_size [] = 0" "total_size (p # ps) = profile_size p + total_size ps"
  "total_size (ps @ qs) = total_size ps + total_size qs"
  by (simp_all add: total_size_def)

lemma length_catalog_bytes:
  "list_all valid_profile ps \<Longrightarrow> length (concat (map profile_bytes ps)) = total_size ps"
  by (induction ps) (simp_all add: length_profile_bytes)

lemma count_walk:
  assumes "drop off ee = concat (map profile_bytes ps) @ rest" "list_all valid_profile ps"
    "length ee < 32768"
  shows "GetProfilesCount_loop ee off c =
         GetProfilesCount_loop ee (off + total_size ps) (c + length ps)"
  using assms(1,2)
proof (induction ps arbitrary: off c)
  case Nil
  then show ?case by simp
next
  case (Cons p ps)
  from Cons.prems have d: "drop off ee = profile_bytes p @ (concat (map profile_bytes ps) @ rest)"
    and v: "valid_profile p" and vs: "list_all valid_profile ps" by simp_all
  from record_at(5) [OF d v assms(3)]
  have "GetProfilesCount_loop ee (off + profile_size p) (c + 1) =
        GetProfilesCount_loop ee (off + profile_size p + total_size ps) (c + 1 + length ps)"
    using vs by (rule Cons.IH)
  with count_step [OF d v assms(3), of c] show ?case by (simp add: add.assoc)
qed

lemma find_walk:
  assumes "drop off ee = concat (map profile_bytes ps) @ rest" "list_all valid_profile ps"
    "length ee < 32768"
  shows "FindFreeEEPROMStart_loop ee off = FindFreeEEPROMStart_loop ee (off + total_size ps)"
  using assms(1,2)
proof (induction ps arbitrary: off)
  case Nil
  then show ?case by simp
next
  case (Cons p ps)
  from Cons.prems have d: "drop off ee = profile_bytes p @ (concat (map profile_bytes ps) @ rest)"
    and v: "valid_profile p" and vs: "list_all valid_profile ps" by simp_all
  from record_at(5) [OF d v assms(3)]
  have "FindFreeEEPROMStart_loop ee (off + profile_size p) =
        FindFreeEEPROMStart_loop ee (off + profile_size p + total_size ps)"
    using vs by (rule Cons.IH)
  with find_step [OF d v assms(3)] show ?case by (simp add: add.assoc)
qed

lemma load_walk:
  assumes "drop off ee = concat (map profile_bytes ps) @ rest" "list_all valid_profile ps"
    "length ee < 32768" "i < length ps"
  shows "LoadProfileHeader_loop ee off (int i) h0 =
         Some (Inr (as_int (off + total_size (take i ps)), Header (ps ! i)))"
  using assms(1,2,4)
proof (induction ps arbitrary: off i h0)
  case Nil
  then show ?case by simp
next
  case (Cons p ps)
  from Cons.prems have d: "drop off ee = profile_bytes p @ (concat (map profile_bytes ps) @ rest)"
    and v: "valid_profile p" and vs: "list_all valid_profile ps" by simp_all
  show ?case
  proof (cases i)
    case 0
    with load_step [OF d v assms(3), of 0 h0] show ?thesis by simp
  next
    case (Suc j)
    with Cons.prems have j: "j < length ps" by simp
    from record_at(5) [OF d v assms(3)]
    have "LoadProfileHeader_loop ee (off + profile_size p) (int j) (Header p) =
          Some (Inr (as_int (off + profile_size p + total_size (take j ps)), Header (ps ! j)))"
      using vs j by (rule Cons.IH)
    with load_step [OF d v assms(3), of "int i" h0] Suc show ?thesis
      by (simp add: add.assoc)
  qed
qed

text \<open>The zero bytes after the last record.\<close>

lemma zeros_at:
  assumes "drop off ee = replicate z 0" "22 \<le> length ee" "length ee < 32768"
    "off < scan_limit ee"
  shows "EEPROM_get ee off sizeof_Header = Inr (replicate 22 0)"
    and "hd (ProfileName (bytes_header (replicate 22 0))) = 0"
proof -
  from assms(2,3,4) have lt: "off + 22 < length ee" by (simp add: scan_limit_eq)
  from assms(1) have "length ee - off = z" by (metis length_drop length_replicate)
  with lt have z: "22 < z" by simp
  have "take 22 (drop off ee) = replicate 22 (0::byte)"
    using z by (simp add: assms(1) min_def)
  with lt show "EEPROM_get ee off sizeof_Header = Inr (replicate 22 0)"
    by (simp add: EEPROM_get_def sizes)
  show "hd (ProfileName (bytes_header (replicate 22 0))) = 0"
    by (simp add: bytes_header_def sizes hd_conv_nth)
qed

lemma count_end:
  assumes "drop off ee = replicate z 0" "22 \<le> length ee" "length ee < 32768"
  shows "GetProfilesCount_loop ee off c = Some (Inr c)"
  using zeros_at [OF assms]
  by (subst GetProfilesCount_loop.simps) auto

lemma find_end:
  assumes "drop off ee = replicate z 0" "22 \<le> length ee" "length ee < 32768" "22 < z"
  shows "FindFreeEEPROMStart_loop ee off = Some (Inr (int off))"
proof -
  from assms(1) have "length ee - off = z" by (metis length_drop length_replicate)
  with assms(4) have lt: "off + 22 < length ee" by simp
  with assms(2,3) have "off < scan_limit ee" by (simp add: scan_limit_eq)
  with zeros_at [OF assms(1,2,3)] lt assms(3) show ?thesis
    by (subst FindFreeEEPROMStart_loop.simps) (simp add: as_int_small)
qed

lemma catalogD:
  assumes "catalog ps z ee"
  shows "length ee < 32768" "31 \<le> length ee" "list_all valid_profile ps"
    "drop 9 ee = concat (map profile_bytes ps) @ replicate z 0"
    "9 + total_size ps + z = length ee"
proof -
  from assms show a: "length ee < 32768" "31 \<le> length ee" "list_all valid_profile ps"
    and d: "drop 9 ee = concat (map profile_bytes ps) @ replicate z 0"
    by (simp_all add: catalog_def sizes)
  from d have "length (drop 9 ee) = total_size ps + z"
    using a(3) by (simp add: length_catalog_bytes)
  with a(2) show "9 + total_size ps + z = length ee" by simp
qed

lemma catalog_rest:
  assumes "catalog ps z ee"
  shows "drop (9 + total_size ps) ee = replicate z 0"
  using drop_past [OF catalogD(4) [OF assms]] catalogD(3) [OF assms]
  by (simp add: length_catalog_bytes)

lemma GetProfilesCount_catalog:
  assumes "catalog ps z ee"
  shows "GetProfilesCount ee = Some (Inr (int (length ps)))"
proof -
  note c = catalogD [OF assms]
  have "GetProfilesCount_loop ee 9 0 = GetProfilesCount_loop ee (9 + total_size ps) (0 + length ps)"
    using c(4,3,1) by (rule count_walk)
  also have "\<dots> = Some (Inr (length ps))"
    using count_end [OF catalog_rest [OF assms]] c(1,2) by simp
  finally have "GetProfilesCount_loop ee 9 0 = Some (Inr (length ps))" .
  moreover have "length ps < 32768"
  proof -
    have "length ps \<le> total_size ps" using c(3)
    proof (induction ps)
      case Nil then show ?case by simp
    next
      case (Cons p ps)
      then show ?case using profile_size_ge [of p] by simp
    qed
    with c(5,1) show ?thesis by simp
  qed
  ultimately show ?thesis by (simp add: GetProfilesCount_def sizes as_int_small)
qed

lemma FindFreeEEPROMStart_catalog:
  assumes "catalog ps z ee" "22 < z"
  shows "FindFreeEEPROMStart ee = Some (Inr (int (9 + total_size ps)))"
proof -
  note c = catalogD [OF assms(1)]
  have "FindFreeEEPROMStart_loop ee 9 = FindFreeEEPROMStart_loop ee (9 + total_size ps)"
    using c(4,3,1) by (rule find_walk)
  also have "\<dots> = Some (Inr (int (9 + total_size ps)))"
    using find_end [OF catalog_rest [OF assms(1)] _ c(1) assms(2)] c(2) by simp
  finally show ?thesis by (simp add: FindFreeEEPROMStart_def sizes)
qed

lemma read_phases_at:
  assumes "drop off ee = concat (map phase_bytes phs) @ rest"
    "list_all (\<lambda>ph. length (Name ph) = 11) phs"
  shows "read_phases ee off (length phs) = Inr phs"
  using assms
proof (induction phs arbitrary: off)
  case Nil
  then show ?case by simp
next
  case (Cons ph phs)
  from Cons.prems have d: "drop off ee = phase_bytes ph @ (concat (map phase_bytes phs) @ rest)"
    and n: "length (Name ph) = 11" and ns: "list_all (\<lambda>ph. length (Name ph) = 11) phs"
    by simp_all
  have ne: "phase_bytes ph \<noteq> []" using length_phase_bytes [of ph] by auto
  from EEPROM_get_at [OF d ne] have g: "EEPROM_get ee off sizeof_Phase = Inr (phase_bytes ph)"
    by (simp add: length_phase_bytes sizes)
  from drop_past [OF d] have "drop (off + sizeof_Phase) ee = concat (map phase_bytes phs) @ rest"
    by (simp add: length_phase_bytes sizes)
  then have "read_phases ee (off + sizeof_Phase) (length phs) = Inr phs"
    using ns by (rule Cons.IH)
  with g n show ?case by (simp add: bytes_phase_inverse)
qed

lemma alloc_capacity_small: "unat n * 21 < 65536 \<Longrightarrow> alloc_capacity n = unat n"
  by (simp add: alloc_capacity_def sizes)

lemma take_total_le: "i \<le> length ps \<Longrightarrow> total_size (take i ps) + total_size (drop i ps) = total_size ps"
  by (metis append_take_drop_id total_size_simps(3))

lemma LoadProfile_catalog:
  assumes "catalog ps z ee" "i < length ps"
  shows "LoadProfile True info (int i) ee = Some (Inr (True, ps ! i))"
proof -
  note c = catalogD [OF assms(1)]
  define p where "p = ps ! i"
  define off where "off = 9 + total_size (take i ps)"
  from c(3) assms(2) have v: "valid_profile p" by (simp add: p_def list_all_length)
  then obtain phs where phs: "lpPhases p = Some phs" "length phs = unat (PhasesCount (Header p))"
    "list_all (\<lambda>ph. length (Name ph) = 11) phs" by (rule valid_profileD)
  have split: "ps = take i ps @ p # drop (Suc i) ps"
    using assms(2) by (simp add: p_def id_take_nth_drop)
  have vt: "list_all valid_profile (take i ps)"
    using c(3) by (metis append_take_drop_id list_all_append)
  have "drop 9 ee = concat (map profile_bytes (take i ps)) @
      (profile_bytes p @ concat (map profile_bytes (drop (Suc i) ps)) @ replicate z 0)"
    by (subst c(4), subst split) simp
  from drop_past [OF this] vt
  have d: "drop off ee = profile_bytes p @ (concat (map profile_bytes (drop (Suc i) ps)) @ replicate z 0)"
    by (simp add: off_def length_catalog_bytes)
  note r = record_at [OF d v c(1)]
  from r(6) c(1) have small: "off + profile_size p < 32768" by simp
  then have off_small: "off < 32768" by simp
  have hdr: "LoadProfileHeader (Header info) (int i) ee = Some (Inr (int off, Header p))"
    using load_walk [OF c(4,3,1) assms(2), of "Header info"]
    by (simp add: LoadProfileHeader_def sizes off_def [symmetric] p_def as_int_small off_small)
  from small have cap: "unat (PhasesCount (Header p)) * 21 < 65536"
    by (simp add: profile_size_def sizes)
  have "drop off ee = header_bytes (Header p) @ (concat (map phase_bytes phs) @
      (concat (map profile_bytes (drop (Suc i) ps)) @ replicate z 0))"
    using d phs(1) by (simp add: profile_bytes_eq)
  from drop_past [OF this]
  have "drop (off + 22) ee = concat (map phase_bytes phs) @
      (concat (map profile_bytes (drop (Suc i) ps)) @ replicate z 0)"
    by (simp add: length_header_bytes)
  from read_phases_at [OF this phs(3)]
  have rd: "read_phases ee (off + 22) (unat (PhasesCount (Header p))) = Inr phs"
    by (simp add: phs(2))
  have off_pos: "0 < off" by (simp add: off_def)
  have "p = \<lparr>Header = Header p, lpPhases = Some phs\<rparr>" using phs(1) by simp
  with hdr rd cap off_pos show ?thesis
    by (simp add: LoadProfile_def alloc_capacity_small sizes p_def [symmetric] nat_add_distrib)
qed

lemma CopyToEEPROM_at:
  "length bs \<le> length zs \<Longrightarrow>
   CopyToEEPROM bs (length as) (as @ zs) = Inr (length as + length bs, as @ bs @ drop (length bs) zs)"
proof (induction bs arbitrary: as zs)
  case Nil
  then show ?case by simp
next
  case (Cons b bs)
  then obtain y ys where zs: "zs = y # ys" by (cases zs) auto
  with Cons.prems have le: "length bs \<le> length ys" by simp
  have "(as @ zs)[length as := b] = (as @ [b]) @ ys" by (simp add: zs)
  moreover have "CopyToEEPROM bs (length (as @ [b])) ((as @ [b]) @ ys) =
      Inr (length (as @ [b]) + length bs, (as @ [b]) @ bs @ drop (length bs) ys)"
    using le by (rule Cons.IH)
  ultimately show ?case by (simp add: zs)
qed

lemma EEPROM_put_at:
  "length bs \<le> length zs \<Longrightarrow>
   EEPROM_put (length as) bs (as @ zs) = Inr (as @ bs @ drop (length bs) zs)"
  by (simp add: EEPROM_put_def)

lemma Append_catalog:
  assumes "catalog ps z ee" "valid_profile p" "22 < z" "profile_size p \<le> z"
  shows "\<exists>ee'. EEPROMAppendProfile p ee = Some (Inr (None, ee')) \<and>
           catalog (ps @ [p]) (z - profile_size p) ee' \<and>
           take (9 + total_size ps) ee' = take (9 + total_size ps) ee"
proof -
  note c = catalogD [OF assms(1)]
  define off where "off = 9 + total_size ps"
  define as where "as = take off ee"
  obtain phs where phs: "lpPhases p = Some phs" "length phs = unat (PhasesCount (Header p))"
    using assms(2) by (rule valid_profileD)
  define hb where "hb = header_bytes (Header p)"
  define pb where "pb = concat (map phase_bytes phs)"
  have lhb: "length hb = 22" by (simp add: hb_def length_header_bytes)
  have lpb: "length pb = unat (PhasesCount (Header p)) * 21"
    by (simp add: pb_def length_phases_bytes phs(2))
  have size: "profile_size p = 22 + length pb" by (simp add: profile_size_def sizes lpb)
  have las: "length as = off" using c(5) by (simp add: as_def off_def)
  have ee: "ee = as @ replicate z 0"
    using catalog_rest [OF assms(1)] by (metis as_def off_def append_take_drop_id)
  have find: "FindFreeEEPROMStart ee = Some (Inr (int off))"
    using FindFreeEEPROMStart_catalog [OF assms(1,3)] by (simp add: off_def)
  have put: "EEPROM_put off hb ee = Inr (as @ hb @ replicate (z - 22) 0)"
    using EEPROM_put_at [of hb "replicate z 0" as] assms(3) by (simp add: ee las lhb)
  have mem: "phases_memory p = Inr pb"
  proof -
    from c(1,5) assms(4) size have "length pb < 65536" by simp
    then show ?thesis
      by (simp add: phases_memory_def phs(1) pb_def [symmetric] lpb sizes)
  qed
  have copy: "CopyToEEPROM pb (off + 22) (as @ hb @ replicate (z - 22) 0) =
      Inr (off + 22 + length pb, as @ hb @ pb @ replicate (z - profile_size p) 0)"
    using CopyToEEPROM_at [of pb "replicate (z - 22) 0" "as @ hb"] assms(4)
    by (simp add: las lhb size)
  define ee' where "ee' = as @ hb @ pb @ replicate (z - profile_size p) 0"
  have pos: "0 < off" by (simp add: off_def)
  have app: "EEPROMAppendProfile p ee = Some (Inr (None, ee'))"
    using find put mem copy pos
    by (simp add: EEPROMAppendProfile_def hb_def [symmetric] sizes ee'_def)
  have pbytes: "profile_bytes p = hb @ pb" by (simp add: profile_bytes_eq phs(1) hb_def pb_def)
  have len': "length ee' = length ee"
    using assms(4) by (simp add: ee'_def ee lhb size)
  have "drop 9 as = concat (map profile_bytes ps)"
    using c(4) c(3) by (simp add: as_def off_def drop_take length_catalog_bytes
        flip: take_drop)
  then have "drop 9 ee' = concat (map profile_bytes (ps @ [p])) @ replicate (z - profile_size p) 0"
    using las by (simp add: ee'_def pbytes off_def)
  with len' c(1,2,3) assms(2) have cat: "catalog (ps @ [p]) (z - profile_size p) ee'"
    by (simp add: catalog_def sizes)
  have "take off ee' = take off ee" by (simp add: ee'_def ee las)
  with app cat show ?thesis unfolding off_def by blast
qed

lemma EEPROMFormat_loop_eq:
  "i \<le> length ee \<Longrightarrow> EEPROMFormat_loop i ee = take i ee @ replicate (length ee - i) 0"
proof (induction i ee rule: EEPROMFormat_loop.induct)
  case (1 i ee)
  show ?case
  proof (cases "i < length ee")
    case False
    with "1.prems" show ?thesis by simp
  next
    case True
    then have "EEPROMFormat_loop (i + 1) (ee[i := 0]) =
        take (i + 1) (ee[i := 0]) @ replicate (length (ee[i := 0]) - (i + 1)) 0"
      using "1.IH" by simp
    moreover have "take (i + 1) (ee[i := 0]) = take i ee @ [0]"
      using True by (simp add: take_Suc_conv_app_nth)
    moreover have "replicate (length ee - i) (0::byte) = 0 # replicate (length ee - (i + 1)) 0"
      using True by (metis Suc_diff_Suc Suc_eq_plus1 replicate_Suc)
    ultimately show ?thesis using True by (subst EEPROMFormat_loop.simps) simp
  qed
qed

lemma EEPROMFormat_catalog:
  assumes "31 \<le> length ee" "length ee < 32768"
  shows "\<exists>ee'. EEPROMFormat ee = Inr ee' \<and> catalog [] (length ee - 9) ee' \<and>
           take 9 ee' = DefaultSignature"
proof -
  have ls: "length DefaultSignature = 9" by (simp add: DefaultSignature_def)
  define ee1 where "ee1 = DefaultSignature @ drop 9 ee"
  have put: "EEPROM_put EEPROM_SIGNATURE_OFFSET DefaultSignature ee = Inr ee1"
    using assms(1) by (simp add: EEPROM_put_def EEPROM_SIGNATURE_OFFSET_def ls ee1_def)
  have l1: "length ee1 = length ee" using assms(1) by (simp add: ee1_def ls)
  define ee' where "ee' = EEPROMFormat_loop 9 ee1"
  have ee': "ee' = DefaultSignature @ replicate (length ee - 9) 0"
    using EEPROMFormat_loop_eq [of 9 ee1] assms(1) l1 by (simp add: ee'_def) (simp add: ee1_def ls)
  have "EEPROMFormat ee = Inr ee'" by (simp add: EEPROMFormat_def put ee'_def sizes)
  moreover have "catalog [] (length ee - 9) ee'"
    using assms by (simp add: catalog_def ee' ls sizes)
  moreover have "take 9 ee' = DefaultSignature" by (simp add: ee' ls)
  ultimately show ?thesis by blast
qed

lemma flash_name_length: "length (flash_name n s) = n"
  by (simp add: flash_name_def length_char_array)

lemma valid_oven_profile: "valid_profile (oven_profile dbl)"
  by (simp add: valid_profile_def oven_profile_def OVENCONTROLLER_PROFILEHEADER_def
      OVENCONTROLLER_PHASES_def flash_phase_def flash_name_def char_array_def sizes)

lemma valid_reflow_profile: "valid_profile (reflow_profile dbl)"
  by (simp add: valid_profile_def reflow_profile_def PBFREEREFLOWCONTROLLER_PROFILEHEADER_def
      PBFREEREFLOWCONTROLLER_PHASES_def flash_phase_def flash_name_def char_array_def sizes)

lemma size_oven_profile: "profile_size (oven_profile dbl) = 64"
  by (simp add: profile_size_def oven_profile_def OVENCONTROLLER_PROFILEHEADER_def
      OVENCONTROLLER_PHASES_def sizes)

lemma size_reflow_profile: "profile_size (reflow_profile dbl) = 190"
  by (simp add: profile_size_def reflow_profile_def PBFREEREFLOWCONTROLLER_PROFILEHEADER_def
      PBFREEREFLOWCONTROLLER_PHASES_def sizes)

lemma register_oven:
  "register_default dbl True OVENCONTROLLER_PROFILEHEADER OVENCONTROLLER_PHASES ee =
     map_option (map_sum id snd) (EEPROMAppendProfile (oven_profile dbl) ee)"
  by (simp add: register_default_def oven_profile_def OVENCONTROLLER_PROFILEHEADER_def
      OVENCONTROLLER_PHASES_def split: option.splits sum.splits)

lemma register_reflow:
  "register_default dbl True PBFREEREFLOWCONTROLLER_PROFILEHEADER PBFREEREFLOWCONTROLLER_PHASES ee =
     map_option (map_sum id snd) (EEPROMAppendProfile (reflow_profile dbl) ee)"
  by (simp add: register_default_def reflow_profile_def PBFREEREFLOWCONTROLLER_PROFILEHEADER_def
      PBFREEREFLOWCONTROLLER_PHASES_def split: option.splits sum.splits)

lemma Register_catalog:
  assumes "catalog [] z ee" "254 \<le> z"
  shows "\<exists>ee'. EEPROMRegisterDefaultProfiles dbl True True ee = Some (Inr ee') \<and>
           catalog [oven_profile dbl, reflow_profile dbl] (z - 254) ee'"
proof -
  have z0: "22 < z" "profile_size (oven_profile dbl) \<le> z"
    using assms(2) by (simp_all add: size_oven_profile)
  from Append_catalog [OF assms(1) valid_oven_profile [of dbl] z0]
  obtain ee1 where a1: "EEPROMAppendProfile (oven_profile dbl) ee = Some (Inr (None, ee1))"
    and c1: "catalog [oven_profile dbl] (z - 64) ee1"
    by (auto simp: size_oven_profile)
  have z1: "22 < z - 64" "profile_size (reflow_profile dbl) \<le> z - 64"
    using assms(2) by (simp_all add: size_reflow_profile)
  from Append_catalog [OF c1 valid_reflow_profile [of dbl] z1]
  obtain ee2 where a2: "EEPROMAppendProfile (reflow_profile dbl) ee1 = Some (Inr (None, ee2))"
    and c2: "catalog [oven_profile dbl, reflow_profile dbl] (z - 64 - 190) ee2"
    by (auto simp: size_reflow_profile)
  have "EEPROMRegisterDefaultProfiles dbl True True ee = Some (Inr ee2)"
    by (simp add: EEPROMRegisterDefaultProfiles_def register_oven register_reflow a1 a2)
  moreover have "z - 64 - 190 = z - 254" by simp
  ultimately show ?thesis using c2 by auto
qed

text \<open>
  Claim C7, on the code. On a device of at least 263 and less than 32768 bytes, formatting
  and then registering the defaults (with the two memory reservations succeeding) leaves a
  catalog of exactly two profiles, which load as the two default profiles of the program
  memory, with the end temperatures, slopes and durations of the tables. The sixth phase
  of the second profile is stored under the name \<^verbatim>\<open>Reflow-1\<close>: the initialiser spells
  the characters of the fifth name again, next to a comment that says \<^verbatim>\<open>Reflow-2\<close>.
\<close>

theorem default_catalog:
  assumes "263 \<le> length ee" and "length ee < 32768"
  shows "\<exists>ee1 ee2. EEPROMFormat ee = Inr ee1 \<and>
           EEPROMRegisterDefaultProfiles dbl True True ee1 = Some (Inr ee2) \<and>
           GetProfilesCount ee2 = Some (Inr 2) \<and>
           LoadProfile True info 0 ee2 = Some (Inr (True, oven_profile dbl)) \<and>
           LoadProfile True info 1 ee2 = Some (Inr (True, reflow_profile dbl)) \<and>
           Name (the (lpPhases (reflow_profile dbl)) ! 5) = flash_name MAX_PHASENAME_LEN ''Reflow-1'' \<and>
           Name (the (lpPhases (reflow_profile dbl)) ! 5) \<noteq> flash_name MAX_PHASENAME_LEN ''Reflow-2''"
proof -
  have "31 \<le> length ee" using assms(1) by simp
  from EEPROMFormat_catalog [OF this assms(2)]
  obtain ee1 where f: "EEPROMFormat ee = Inr ee1" and c1: "catalog [] (length ee - 9) ee1"
    by auto
  have "254 \<le> length ee - 9" using assms(1) by simp
  from Register_catalog [OF c1 this, of dbl]
  obtain ee2 where r: "EEPROMRegisterDefaultProfiles dbl True True ee1 = Some (Inr ee2)"
    and c2: "catalog [oven_profile dbl, reflow_profile dbl] (length ee - 9 - 254) ee2"
    by auto
  from GetProfilesCount_catalog [OF c2] have n: "GetProfilesCount ee2 = Some (Inr 2)" by simp
  from LoadProfile_catalog [OF c2, of 0 info]
  have l0: "LoadProfile True info 0 ee2 = Some (Inr (True, oven_profile dbl))" by simp
  from LoadProfile_catalog [OF c2, of 1 info]
  have l1: "LoadProfile True info 1 ee2 = Some (Inr (True, reflow_profile dbl))" by simp
  have nm: "Name (the (lpPhases (reflow_profile dbl)) ! 5) = flash_name MAX_PHASENAME_LEN ''Reflow-1''"
    by (simp add: reflow_profile_def PBFREEREFLOWCONTROLLER_PHASES_def flash_phase_def)
  have ne: "flash_name MAX_PHASENAME_LEN ''Reflow-1'' \<noteq> flash_name MAX_PHASENAME_LEN ''Reflow-2''"
    by (simp add: flash_name_def char_array_def sizes)
  from f r n l0 l1 nm ne show ?thesis by auto
qed

text \<open>
  Claim C8, as amended. When the store holds a catalog and the free bytes after it are at
  least as many as the record of a well-formed profile needs, appending the profile
  succeeds, the count of profiles grows by one, loading the profile at the old count
  returns the appended profile, every earlier profile loads as before, and no byte before
  the new record has changed.
\<close>

theorem append_then_load:
  assumes "catalog ps z ee" and "valid_profile p" and "profile_size p \<le> z"
  shows "GetProfilesCount ee = Some (Inr (int (length ps))) \<and>
         (\<exists>ee'. EEPROMAppendProfile p ee = Some (Inr (None, ee')) \<and>
            GetProfilesCount ee' = Some (Inr (int (length ps) + 1)) \<and>
            LoadProfile True info (int (length ps)) ee' = Some (Inr (True, p)) \<and>
            (\<forall>i < length ps.
               LoadProfile True info (int i) ee = Some (Inr (True, ps ! i)) \<and>
               LoadProfile True info (int i) ee' = Some (Inr (True, ps ! i))) \<and>
            take (EEPROM_APPDATA_OFFSET + total_size ps) ee' =
              take (EEPROM_APPDATA_OFFSET + total_size ps) ee)"
proof -
  from profile_size_ge [OF assms(2)] assms(3) have z: "22 < z" by simp
  from Append_catalog [OF assms(1,2) z assms(3)]
  obtain ee' where a: "EEPROMAppendProfile p ee = Some (Inr (None, ee'))"
    and c: "catalog (ps @ [p]) (z - profile_size p) ee'"
    and t: "take (9 + total_size ps) ee' = take (9 + total_size ps) ee" by blast
  have n': "GetProfilesCount ee' = Some (Inr (int (length ps) + 1))"
    using GetProfilesCount_catalog [OF c] by simp
  have new: "LoadProfile True info (int (length ps)) ee' = Some (Inr (True, p))"
    using LoadProfile_catalog [OF c, of "length ps" info] by simp
  have old: "LoadProfile True info (int i) ee = Some (Inr (True, ps ! i)) \<and>
             LoadProfile True info (int i) ee' = Some (Inr (True, ps ! i))" if "i < length ps" for i
    using LoadProfile_catalog [OF assms(1) that, of info]
      LoadProfile_catalog [OF c, of i info] that by (simp add: nth_append)
  from GetProfilesCount_catalog [OF assms(1)] a n' new old t show ?thesis
    by (auto simp: sizes)
qed


lemma phases_memory_valid:
  assumes "valid_profile p" "profile_size p < 65536"
  shows "phases_memory p = Inr (concat (map phase_bytes (the (lpPhases p))))"
proof -
  obtain phs where phs: "lpPhases p = Some phs" "length phs = unat (PhasesCount (Header p))"
    using assms(1) by (rule valid_profileD)
  from assms(2) have "unat (PhasesCount (Header p)) * 21 < 65536"
    by (simp add: profile_size_def sizes)
  then show ?thesis
    by (simp add: phases_memory_def phs length_phases_bytes sizes)
qed

lemma CopyToEEPROM_overflow:
  "length zs < length bs \<Longrightarrow> CopyToEEPROM bs (length as) (as @ zs) = Inl EEPROMOutOfRange"
proof (induction bs arbitrary: as zs)
  case Nil
  then show ?case by simp
next
  case (Cons b bs)
  show ?case
  proof (cases zs)
    case Nil
    then show ?thesis by simp
  next
    case (Cons y ys)
    with Cons.prems have lt: "length ys < length bs" by simp
    have "(as @ zs)[length as := b] = (as @ [b]) @ ys" by (simp add: Cons)
    moreover have "CopyToEEPROM bs (length (as @ [b])) ((as @ [b]) @ ys) = Inl EEPROMOutOfRange"
      using lt by (rule Cons.IH)
    ultimately show ?thesis by (simp add: Cons)
  qed
qed

lemma catalog_formatted_1024: "catalog [] 1015 formatted_1024"
  by (simp add: catalog_def formatted_1024_def DefaultSignature_def sizes)

lemma valid_long_profile: "valid_profile long_profile"
  by (simp add: valid_profile_def long_profile_def flash_name_def char_array_def sizes
      hold_phase_def list_all_iff)

text \<open>
  Claim C8 as stated fails. A formatted device of 1024 bytes is not full: the free offset
  is 9. A well-formed profile of 48 phases needs 1030 bytes, the device has 1015 left, and
  \<^verbatim>\<open>EEPROMAppendProfile\<close>, which does not compare the two, writes past the last byte.
\<close>

theorem append_without_room:
  "GetProfilesCount formatted_1024 = Some (Inr 0) \<and>
   FindFreeEEPROMStart formatted_1024 = Some (Inr 9) \<and>
   valid_profile long_profile \<and>
   EEPROMAppendProfile long_profile formatted_1024 = Some (Inl EEPROMOutOfRange)"
proof -
  have n: "GetProfilesCount formatted_1024 = Some (Inr 0)"
    using GetProfilesCount_catalog [OF catalog_formatted_1024] by simp
  have f: "FindFreeEEPROMStart formatted_1024 = Some (Inr 9)"
    using FindFreeEEPROMStart_catalog [OF catalog_formatted_1024] by simp
  define hb where "hb = header_bytes (Header long_profile)"
  define pb where "pb = concat (map phase_bytes (the (lpPhases long_profile)))"
  have lhb: "length hb = 22" by (simp add: hb_def length_header_bytes)
  have "length pb = 21 * length (the (lpPhases long_profile))"
    unfolding pb_def by (rule length_phases_bytes)
  then have lpb: "length pb = 1008" by (simp add: long_profile_def)
  have ls: "length DefaultSignature = 9" by (simp add: DefaultSignature_def)
  have put: "EEPROM_put 9 hb formatted_1024 = Inr (DefaultSignature @ hb @ replicate 993 0)"
    using EEPROM_put_at [of hb "replicate 1015 0" DefaultSignature]
    by (simp add: formatted_1024_def ls lhb)
  have mem: "phases_memory long_profile = Inr pb"
    unfolding pb_def by (rule phases_memory_valid [OF valid_long_profile])
      (simp add: profile_size_def long_profile_def sizes)
  have copy: "CopyToEEPROM pb 31 (DefaultSignature @ hb @ replicate 993 0) = Inl EEPROMOutOfRange"
    using CopyToEEPROM_overflow [of "replicate 993 0" pb "DefaultSignature @ hb"]
    by (simp add: lpb ls lhb)
  have "EEPROMAppendProfile long_profile formatted_1024 = Some (Inl EEPROMOutOfRange)"
    by (simp add: EEPROMAppendProfile_def f hb_def [symmetric] put mem copy sizes)
  with n f valid_long_profile show ?thesis by simp
qed

lemma catalog_one_profile_300: "catalog [oven_profile example_dbl] 227 one_profile_300"
  using valid_oven_profile [of example_dbl] length_profile_bytes [OF valid_oven_profile, of example_dbl]
  by (simp add: catalog_def one_profile_300_def DefaultSignature_def sizes size_oven_profile)

text \<open>
  Claim C8, as amended, on an example: the second default profile appended to a device of
  300 bytes that holds the first.
\<close>

theorem append_then_load_witness:
  "catalog [oven_profile example_dbl] 227 one_profile_300 \<and>
   valid_profile (reflow_profile example_dbl) \<and>
   profile_size (reflow_profile example_dbl) \<le> 227 \<and>
   GetProfilesCount one_profile_300 = Some (Inr 1) \<and>
   GetProfilesCount
     (snd (projr (the (EEPROMAppendProfile (reflow_profile example_dbl) one_profile_300)))) =
     Some (Inr 2) \<and>
   LoadProfile True empty_info 1
     (snd (projr (the (EEPROMAppendProfile (reflow_profile example_dbl) one_profile_300)))) =
     Some (Inr (True, reflow_profile example_dbl)) \<and>
   LoadProfile True empty_info 0
     (snd (projr (the (EEPROMAppendProfile (reflow_profile example_dbl) one_profile_300)))) =
     Some (Inr (True, oven_profile example_dbl))"
proof -
  note a1 = catalog_one_profile_300
  note a2 = valid_reflow_profile [of example_dbl]
  have a3: "profile_size (reflow_profile example_dbl) \<le> 227" by (simp add: size_reflow_profile)
  from append_then_load [OF a1 a2 a3, of empty_info] a1 a2 a3
  show ?thesis by auto
qed

text \<open>
  Claim C7 on a device of 1024 bytes: the names of the eight phases as they are loaded.
\<close>

theorem default_catalog_witness:
  "(263::nat) \<le> length (replicate 1024 (0xFF::byte)) \<and>
   length (replicate 1024 (0xFF::byte)) < 32768 \<and>
   GetProfilesCount
     (projr (the (EEPROMRegisterDefaultProfiles example_dbl True True
        (projr (EEPROMFormat (replicate 1024 0xFF)))))) = Some (Inr 2) \<and>
   map_option (map_sum id (\<lambda>r. map Name (the (lpPhases (snd r)))))
     (LoadProfile True empty_info 1
       (projr (the (EEPROMRegisterDefaultProfiles example_dbl True True
          (projr (EEPROMFormat (replicate 1024 0xFF))))))) =
     Some (Inr (map (flash_name MAX_PHASENAME_LEN)
       [''Preheat-1'', ''Preheat-2'', ''Soak-1'', ''Soak-2'', ''Reflow-1'', ''Reflow-1'',
        ''Cooling'', ''Done(HOT)''])) \<and>
   LoadProfile True empty_info 0
     (projr (the (EEPROMRegisterDefaultProfiles example_dbl True True
        (projr (EEPROMFormat (replicate 1024 0xFF)))))) =
     Some (Inr (True, oven_profile example_dbl))"
proof -
  have a1: "(263::nat) \<le> length (replicate 1024 (0xFF::byte))" by simp
  have a2: "length (replicate 1024 (0xFF::byte)) < 32768" by simp
  have names: "map Name (the (lpPhases (reflow_profile example_dbl))) =
      map (flash_name MAX_PHASENAME_LEN)
       [''Preheat-1'', ''Preheat-2'', ''Soak-1'', ''Soak-2'', ''Reflow-1'', ''Reflow-1'',
        ''Cooling'', ''Done(HOT)'']"
    by (simp add: reflow_profile_def PBFREEREFLOWCONTROLLER_PHASES_def flash_phase_def)
  from default_catalog [OF a1 a2, of example_dbl empty_info] a1 a2 names
  show ?thesis by auto
qed

lemma startPhase_lpPhases:
  "startPhase e i c = Inr c' \<Longrightarrow> m_lpPhases c' = m_lpPhases c \<and> (m_Running c' \<longrightarrow> m_Running c)"
  by (auto simp: startPhase_def SendOvenState_def split: if_splits option.splits)

lemma pid_step_lpPhases:
  "m_lpPhases (pid_step e c) = m_lpPhases c" "m_Running (pid_step e c) = m_Running c"
  by (simp_all add: pid_step_def setHeaterDuty_def Let_def split: option.splits)

lemma envelope_lpPhases:
  "m_lpPhases (envelope p t c) = m_lpPhases c" "m_Running (envelope p t c) = m_Running c"
  by (simp_all add: envelope_def Let_def)

lemma profile_sample_lpPhases:
  "profile_sample e c = Inr c' \<Longrightarrow> m_lpPhases c' = m_lpPhases c \<and> (m_Running c' \<longrightarrow> m_Running c)"
  by (auto simp: profile_sample_def Let_def envelope_lpPhases
      split: option.splits if_splits dest!: startPhase_lpPhases)

lemma doCycle_lpPhases:
  "doCycle e c = Inr c' \<Longrightarrow> m_lpPhases c' = m_lpPhases c \<and> (m_Running c' \<longrightarrow> m_Running c)"
  by (auto simp: doCycle_def Let_def pid_step_lpPhases
      split: if_splits sum.splits dest!: profile_sample_lpPhases)

lemma Start_lpPhases:
  "Start now e c = Inr (r, c') \<Longrightarrow> m_lpPhases c' = m_lpPhases c \<and> (m_Running c' \<longrightarrow> m_Running c \<or> m_lpPhases c \<noteq> None)"
  by (auto simp: Start_def SendOvenState_def split: if_splits sum.splits dest!: startPhase_lpPhases)

lemma idle_without_phases_do_call:
  assumes "m_lpPhases c = None \<longrightarrow> \<not> m_Running c" "do_call x c = Inr c'"
  shows "m_lpPhases c' = None \<longrightarrow> \<not> m_Running c'"
proof (cases x)
  case (CallSetPhases lp n)
  with assms(2) show ?thesis by (auto simp: setPhases_def)
next
  case (CallSetPIDTunings p i d)
  with assms show ?thesis by (auto simp: SetPIDTunings_def)
next
  case (CallStart now e)
  with assms show ?thesis using Start_lpPhases [of now e c]
    by (cases "Start now e c") auto
next
  case CallStop
  with assms(2) show ?thesis by (auto simp: Stop_def SendOvenState_def)
next
  case (CallDoCycle e)
  with assms show ?thesis using doCycle_lpPhases [of e c c'] by auto
qed

lemma idle_without_phases_do_calls:
  "m_lpPhases c = None \<longrightarrow> \<not> m_Running c \<Longrightarrow> do_calls xs c = Inr c' \<Longrightarrow>
   m_lpPhases c' = None \<longrightarrow> \<not> m_Running c'"
proof (induction xs arbitrary: c)
  case Nil
  then show ?case by simp
next
  case (Cons x xs)
  from Cons.prems(2) obtain c1 where c1: "do_call x c = Inr c1" and rest: "do_calls xs c1 = Inr c'"
    by (auto split: sum.splits)
  from idle_without_phases_do_call [OF Cons.prems(1) c1] rest show ?case by (rule Cons.IH)
qed

text \<open>
  Claim C6. In every state reached from the constructed controller in which no phase list
  is set, the controller is not running and \<^verbatim>\<open>Start\<close> returns false and changes
  nothing. The command \<^verbatim>\<open>p on\<close> without an active profile answers with the error
  \<^verbatim>\<open>ARGINVALIDOPT\<close> and changes nothing else: the controller is not started.
\<close>

theorem start_without_profile:
  assumes "constructed c0" and "do_calls xs c0 = Inr c" and "m_lpPhases c = None"
    and "lpPhases (m_ActiveProfile s) = None"
  shows "Start now e c = Inr (False, c) \<and> m_Running c = False \<and>
         CmdProfiles_on dval now' e' [''on''] s =
           Inr (s\<lparr>m_Controller := (m_Controller s)
                  \<lparr>effects := effects (m_Controller s) @ [Response CONSOLEERROR ARGINVALIDOPT]\<rparr>\<rparr>)"
proof -
  from assms(1) have "m_lpPhases c0 = None \<longrightarrow> \<not> m_Running c0" by (simp add: constructed_def)
  from idle_without_phases_do_calls [OF this assms(2)] assms(3) have "\<not> m_Running c" by simp
  with assms(3,4) show ?thesis
    by (simp add: Start_def CmdProfiles_on_def sendResponse_def)
qed

text \<open>
  Claim C6 on an example.
\<close>

theorem start_without_profile_witness:
  "constructed idle_controller \<and>
   do_calls [CallStop, CallDoCycle (sample_env 100 25 0)] idle_controller =
     Inr (Stop idle_controller) \<and>
   m_lpPhases (Stop idle_controller) = None \<and>
   lpPhases (m_ActiveProfile idle_sketch) = None \<and>
   Start 200 \<lparr>tc_start = 25, millis_start = 200\<rparr> (Stop idle_controller) =
     Inr (False, Stop idle_controller) \<and>
   CmdProfiles_on (\<lambda>w. 0) 200 \<lparr>tc_start = 25, millis_start = 200\<rparr> [''on''] idle_sketch =
     Inr (idle_sketch\<lparr>m_Controller := idle_controller
            \<lparr>effects := [Response CONSOLEERROR ARGINVALIDOPT]\<rparr>\<rparr>)"
proof -
  have a1: "constructed idle_controller" by (simp add: constructed_def idle_controller_def)
  have a2: "do_calls [CallStop, CallDoCycle (sample_env 100 25 0)] idle_controller =
     Inr (Stop idle_controller)"
    by (simp add: Stop_def doCycle_def SendOvenState_def setHeaterDuty_def PID_SetMode_def
        idle_controller_def sample_env_def TEMPLOGSAMPLING_TIME_def)
  have a3: "m_lpPhases (Stop idle_controller) = None"
    by (simp add: Stop_def SendOvenState_def setHeaterDuty_def idle_controller_def)
  have a4: "lpPhases (m_ActiveProfile idle_sketch) = None"
    by (simp add: idle_sketch_def empty_info_def)
  from start_without_profile [OF a1 a2 a3 a4, of 200 "\<lparr>tc_start = 25, millis_start = 200\<rparr>"
      "\<lambda>w. 0" 200 "\<lparr>tc_start = 25, millis_start = 200\<rparr>"] a1 a2 a3 a4
  show ?thesis by (simp add: idle_sketch_def idle_controller_def)
qed







end
